theory Spec2Isabelle
  imports Main "HOL-Library.Word"
begin

unbundle bit_operations_syntax

section \<open>Timer\_A software UART of src/main.c\<close>

text \<open>
  The program is a full-duplex 9600 baud UART built on the two capture/compare channels
  of the MSP430 Timer\_A: \<open>TimerA_UART_tx\<close> and \<open>Timer_A0_ISR\<close> transmit on channel 0,
  \<open>Timer_A1_ISR\<close> receives on channel 1. The C integers are machine words:
  \<open>unsigned int\<close> and the timer registers are 16 bits wide, \<open>unsigned char\<close> 8 bits.
\<close>

type_synonym u8 = "8 word"
type_synonym u16 = "16 word"

subsection \<open>Constants\<close>

text \<open>The two macros of main.c, lines 54 and 55, with C's truncating division.\<close>

definition UART_TBIT_DIV_2 :: nat where
  "UART_TBIT_DIV_2 = 1000000 div (9600 * 2)"

definition UART_TBIT :: nat where
  "UART_TBIT = 1000000 div 9600"

text \<open>
  Modelled from the spec: the device header msp430g2231.h that main.c includes is not
  among the sources. The spec names the roles of the register bits the program uses (the
  compare interrupt of a channel, its capture or compare mode, the hardware data latch,
  the level of the input line, the output mode, the low-power wait); the masks below
  carry these roles at the bit positions of the Timer\_A control registers and of the
  status register.
\<close>

definition OUT :: u16 where "OUT = 0x0004"
definition CCI :: u16 where "CCI = 0x0008"
definition CCIE :: u16 where "CCIE = 0x0010"
definition OUTMOD0 :: u16 where "OUTMOD0 = 0x0020"
definition OUTMOD1 :: u16 where "OUTMOD1 = 0x0040"
definition OUTMOD2 :: u16 where "OUTMOD2 = 0x0080"
definition CAP :: u16 where "CAP = 0x0100"
definition SCCI :: u16 where "SCCI = 0x0400"
definition SCS :: u16 where "SCS = 0x0800"
definition CM0 :: u16 where "CM0 = 0x4000"
definition CM1 :: u16 where "CM1 = 0x8000"
definition MC_2 :: u16 where "MC_2 = 0x0020"
definition MC_3 :: u16 where "MC_3 = 0x0030"
definition TASSEL_2 :: u16 where "TASSEL_2 = 0x0200"
definition GIE :: u16 where "GIE = 0x0008"
definition LPM0_bits :: u16 where "LPM0_bits = 0x0010"
definition TAIV_TACCR1 :: u16 where "TAIV_TACCR1 = 0x0002"
definition TAIV_TAIFG :: u16 where "TAIV_TAIFG = 0x000A"

subsection \<open>State\<close>

text \<open>
  The registers of the timer, the status register, the globals of main.c, the
  function-local statics of the two interrupt handlers, and the level of the TXD pin
  that the output unit of channel 0 drives.
\<close>

record mcu =
  TAR :: u16
  TACTL :: u16
  TACCR0 :: u16
  TACCTL0 :: u16
  TACCR1 :: u16
  TACCTL1 :: u16
  SR :: u16
  txData :: u16
  rxBuffer :: u8
  txBitCnt :: u8
  rxBitCnt :: u8
  rxData :: u8
  TXD :: bool

text \<open>
  A write to TACCTL0. In output mode 0 (all OUTMOD bits clear) the pin follows the OUT
  bit at once; in every other mode the pin changes only when the counter reaches TACCR0.
\<close>

definition write_TACCTL0 :: "u16 \<Rightarrow> mcu \<Rightarrow> mcu" where
  "write_TACCTL0 v s =
     s\<lparr>TACCTL0 := v,
       TXD := (if v AND (OUTMOD0 OR OUTMOD1 OR OUTMOD2) = 0 then v AND OUT \<noteq> 0 else TXD s)\<rparr>"

subsection \<open>The functions of main.c\<close>

text \<open>The statics and globals as the C start-up code leaves them; all registers cleared.\<close>

definition reset :: mcu where
  "reset = \<lparr>TAR = 0, TACTL = 0, TACCR0 = 0, TACCTL0 = 0, TACCR1 = 0, TACCTL1 = 0, SR = 0,
            txData = 0, rxBuffer = 0, txBitCnt = 10, rxBitCnt = 8, rxData = 0, TXD = False\<rparr>"

definition enable_interrupt :: "mcu \<Rightarrow> mcu" where
  "enable_interrupt s = s\<lparr>SR := SR s OR GIE\<rparr>"

definition TimerA_UART_init :: "mcu \<Rightarrow> mcu" where
  "TimerA_UART_init s =
     (let s1 = write_TACCTL0 OUT s;
          s2 = s1\<lparr>TACCTL1 := SCS + CM1 + CAP + CCIE\<rparr>
      in s2\<lparr>TACTL := TASSEL_2 + MC_2\<rparr>)"

text \<open>Timer\_A0\_ISR, main.c lines 162 to 181.\<close>

definition Timer_A0_ISR :: "mcu \<Rightarrow> mcu" where
  "Timer_A0_ISR s =
     (let s1 = s\<lparr>TACCR0 := TACCR0 s + of_nat UART_TBIT\<rparr> in
      if txBitCnt s1 = 0 then
        (let s2 = write_TACCTL0 (TACCTL0 s1 AND NOT CCIE) s1 in s2\<lparr>txBitCnt := 10\<rparr>)
      else
        (let s2 = (if txData s1 AND 0x01 \<noteq> 0
                   then write_TACCTL0 (TACCTL0 s1 AND NOT OUTMOD2) s1
                   else write_TACCTL0 (TACCTL0 s1 OR OUTMOD2) s1);
             s3 = s2\<lparr>txData := drop_bit 1 (txData s2)\<rparr>
         in s3\<lparr>txBitCnt := txBitCnt s3 - 1\<rparr>))"

text \<open>
  Timer\_A1\_ISR, main.c lines 186 to 213. The argument \<open>taiv\<close> is the value the handler
  reads from the interrupt vector register TAIV (the intrinsic of line 191 returns it
  unchanged); only the vector of channel 1 has a case.
\<close>

definition Timer_A1_ISR :: "u16 \<Rightarrow> mcu \<Rightarrow> mcu" where
  "Timer_A1_ISR taiv s =
     (if taiv = TAIV_TACCR1 then
        (let s1 = s\<lparr>TACCR1 := TACCR1 s + of_nat UART_TBIT\<rparr> in
         if TACCTL1 s1 AND CAP \<noteq> 0 then
           (let s2 = s1\<lparr>TACCTL1 := TACCTL1 s1 AND NOT CAP\<rparr>
            in s2\<lparr>TACCR1 := TACCR1 s2 + of_nat UART_TBIT_DIV_2\<rparr>)
         else
           (let s2 = s1\<lparr>rxData := drop_bit 1 (rxData s1)\<rparr>;
                s3 = (if TACCTL1 s2 AND SCCI \<noteq> 0 then s2\<lparr>rxData := rxData s2 OR 0x80\<rparr> else s2);
                s4 = s3\<lparr>rxBitCnt := rxBitCnt s3 - 1\<rparr>
            in if rxBitCnt s4 = 0 then
                 (let s5 = s4\<lparr>rxBuffer := rxData s4\<rparr>;
                      s6 = s5\<lparr>rxBitCnt := 8\<rparr>;
                      s7 = s6\<lparr>TACCTL1 := TACCTL1 s6 OR CAP\<rparr>
                  in s7\<lparr>SR := SR s7 AND NOT LPM0_bits\<rparr>)
               else s4))
      else s)"

subsection \<open>The timer hardware\<close>

text \<open>
  Modelled from the spec: the timer is hardware, not code of the repository. The spec's
  BitClock is a free-running counter with two channels, each either raising an interrupt
  when the counter reaches the channel's target (compare) or latching the counter on an
  edge of its input (capture); the header comment of main.c adds that output and input
  bits are latched by the hardware in step with the counter. One \<open>tick\<close> is one period of
  the timer clock. A handler runs to completion within the tick of its event, and a
  pending event is not kept when its interrupt is disabled.
\<close>

text \<open>
  The output unit of channel 0 when the counter reaches TACCR0: mode 1 sets the pin, mode
  5 resets it, mode 4 toggles it (the comments of main.c: OUTMOD0 is ``Set TXD on EQU0'',
  clearing OUTMOD2 is ``TX Mark'', setting it ``TX Space''). The program uses no other
  mode besides mode 0, where the pin follows the OUT bit (see \<open>write_TACCTL0\<close>).
\<close>

definition equ0_output :: "mcu \<Rightarrow> mcu" where
  "equ0_output s =
     (let m = TACCTL0 s AND (OUTMOD0 OR OUTMOD1 OR OUTMOD2) in
      if m = OUTMOD0 then s\<lparr>TXD := True\<rparr>
      else if m = (OUTMOD0 OR OUTMOD2) then s\<lparr>TXD := False\<rparr>
      else if m = OUTMOD2 then s\<lparr>TXD := \<not> TXD s\<rparr>
      else s)"

definition irq0 :: "mcu \<Rightarrow> mcu" where
  "irq0 s = (if SR s AND GIE \<noteq> 0 \<and> TACCTL0 s AND CCIE \<noteq> 0 then Timer_A0_ISR s else s)"

definition irq1 :: "mcu \<Rightarrow> mcu" where
  "irq1 s = (if SR s AND GIE \<noteq> 0 \<and> TACCTL1 s AND CCIE \<noteq> 0
             then Timer_A1_ISR TAIV_TACCR1 s else s)"

definition chan0 :: "mcu \<Rightarrow> mcu" where
  "chan0 s = (if TAR s = TACCR0 s then irq0 (equ0_output s) else s)"

text \<open>The read-only CCI bit shows the level of the input; SCCI is the latched copy.\<close>

definition show_CCI :: "bool \<Rightarrow> mcu \<Rightarrow> mcu" where
  "show_CCI lvl s = s\<lparr>TACCTL1 := (if lvl then TACCTL1 s OR CCI else TACCTL1 s AND NOT CCI)\<rparr>"

definition latch_SCCI :: "bool \<Rightarrow> mcu \<Rightarrow> mcu" where
  "latch_SCCI lvl s = s\<lparr>TACCTL1 := (if lvl then TACCTL1 s OR SCCI else TACCTL1 s AND NOT SCCI)\<rparr>"

text \<open>
  Channel 1 with input level \<open>rxd\<close>. In capture mode an edge of the selected direction
  (CM1 falling, CM0 rising) copies the counter into TACCR1 and interrupts; in compare
  mode the counter reaching TACCR1 latches the input into SCCI and interrupts.
\<close>

definition chan1 :: "bool \<Rightarrow> mcu \<Rightarrow> mcu" where
  "chan1 rxd s =
     (let was = (TACCTL1 s AND CCI \<noteq> 0);
          s1 = show_CCI rxd s
      in if TACCTL1 s1 AND CAP \<noteq> 0 then
           (if (was \<and> \<not> rxd \<and> TACCTL1 s1 AND CM1 \<noteq> 0) \<or> (\<not> was \<and> rxd \<and> TACCTL1 s1 AND CM0 \<noteq> 0)
            then irq1 (s1\<lparr>TACCR1 := TAR s1\<rparr>) else s1)
         else if TAR s1 = TACCR1 s1 then irq1 (latch_SCCI rxd s1)
         else s1)"

text \<open>The counter counts, in continuous mode only; channel 0 has the higher priority.\<close>

definition count :: "mcu \<Rightarrow> mcu" where
  "count s = s\<lparr>TAR := TAR s + 1\<rparr>"

definition tick :: "bool \<Rightarrow> mcu \<Rightarrow> mcu" where
  "tick rxd s = (if TACTL s AND MC_3 = MC_2 then chan1 rxd (chan0 (count s)) else s)"

text \<open>A run over the levels of the RXD pin, one per tick.\<close>

definition run :: "bool list \<Rightarrow> mcu \<Rightarrow> mcu" where
  "run rxds s = fold tick rxds s"

text \<open>Loopback: the RXD pin is wired to the TXD pin.\<close>

definition loop_tick :: "mcu \<Rightarrow> mcu" where
  "loop_tick s =
     (if TACTL s AND MC_3 = MC_2 then (let s1 = chan0 (count s) in chan1 (TXD s1) s1) else s)"

definition loopback :: "nat \<Rightarrow> mcu \<Rightarrow> mcu" where
  "loopback n s = (loop_tick ^^ n) s"

subsection \<open>TimerA\_UART\_tx\<close>

text \<open>
  The busy-wait of line 140 polls TACCTL0 while the timer runs; \<open>rx i\<close> is the level of
  the RXD pin at the \<open>i\<close>-th tick of the wait. The loop need not end (with interrupts
  disabled it never does), so not returning is the value \<open>None\<close>.
\<close>

partial_function (option) wait_tx :: "(nat \<Rightarrow> bool) \<Rightarrow> mcu \<Rightarrow> mcu option" where
  "wait_tx rx s =
     (if TACCTL0 s AND CCIE \<noteq> 0 then wait_tx (\<lambda>i. rx (Suc i)) (tick (rx 0) s) else Some s)"

text \<open>Lines 141 to 146, executed within one tick.\<close>

definition tx_load :: "u8 \<Rightarrow> mcu \<Rightarrow> mcu" where
  "tx_load byte s =
     (let s1 = s\<lparr>TACCR0 := TAR s\<rparr>;
          s2 = s1\<lparr>TACCR0 := TACCR0 s1 + of_nat UART_TBIT\<rparr>;
          s3 = write_TACCTL0 (OUTMOD0 + CCIE) s2;
          s4 = s3\<lparr>txData := ucast byte\<rparr>;
          s5 = s4\<lparr>txData := txData s4 OR 0x100\<rparr>
      in s5\<lparr>txData := push_bit 1 (txData s5)\<rparr>)"

definition TimerA_UART_tx :: "(nat \<Rightarrow> bool) \<Rightarrow> u8 \<Rightarrow> mcu \<Rightarrow> mcu option" where
  "TimerA_UART_tx rx byte s = map_option (tx_load byte) (wait_tx rx s)"

subsection \<open>Receive frames\<close>

text \<open>
  The events of channel 1 as the handler sees them: a capture at counter value \<open>t\<close>, and
  a compare match at which the hardware latched the level \<open>lvl\<close>.
\<close>

definition rx_capture :: "u16 \<Rightarrow> mcu \<Rightarrow> mcu" where
  "rx_capture t s = Timer_A1_ISR TAIV_TACCR1 (s\<lparr>TACCR1 := t\<rparr>)"

definition rx_sample :: "bool \<Rightarrow> mcu \<Rightarrow> mcu" where
  "rx_sample lvl s = Timer_A1_ISR TAIV_TACCR1 (latch_SCCI lvl s)"

definition rx_frame :: "u16 \<Rightarrow> bool list \<Rightarrow> mcu \<Rightarrow> mcu" where
  "rx_frame t lvls s = fold rx_sample lvls (rx_capture t s)"

text \<open>The byte whose bit \<open>k\<close> is the \<open>k\<close>-th element of a list of levels.\<close>

definition byte_of :: "bool list \<Rightarrow> u8" where
  "byte_of lvls = horner_sum of_bool 2 lvls"

text \<open>Lines 199 to 202: the accumulator takes the latched level at its top bit.\<close>

definition shift_in :: "bool \<Rightarrow> u8 \<Rightarrow> u8" where
  "shift_in lvl r = drop_bit 1 r OR (if lvl then 0x80 else 0)"

subsection \<open>The transmitted waveform\<close>

text \<open>Lines 144 to 146: the frame word that \<open>TimerA_UART_tx\<close> leaves in \<open>txData\<close>.\<close>

definition frame :: "u8 \<Rightarrow> u16" where
  "frame b = push_bit 1 (ucast b OR 0x100)"

text \<open>
  The wire protocol in the spec's words: a frame is the start bit 0, the data bits d0 to
  d7 in increasing bit index, and the stop bit 1, ten bit periods in all; the idle line is
  at mark. \<open>line_level b n\<close> is the level of the line \<open>n\<close> ticks after the frame of \<open>b\<close> was
  loaded: mark for two bit periods (the first compare event, one period after the load,
  sets the pin and only programmes the start bit for the next event), then the ten
  levels of the frame, one bit period each, then mark.
\<close>

definition frame_levels :: "u8 \<Rightarrow> bool list" where
  "frame_levels b = False # map (bit b) [0..<8] @ [True]"

definition line_level :: "u8 \<Rightarrow> nat \<Rightarrow> bool" where
  "line_level b n =
     (if n < 2 * UART_TBIT then True
      else if (n - 2 * UART_TBIT) div UART_TBIT < 10
           then frame_levels b ! ((n - 2 * UART_TBIT) div UART_TBIT)
           else True)"

text \<open>
  The timer counts in continuous mode and interrupts are enabled, as \<open>main\<close> and
  \<open>TimerA_UART_init\<close> leave them; the transmitter is idle when its interrupt is off, its
  bit counter reloaded and the line at mark.
\<close>

definition running :: "mcu \<Rightarrow> bool" where
  "running s \<longleftrightarrow> TACTL s AND MC_3 = MC_2 \<and> SR s AND GIE \<noteq> 0"

definition tx_idle :: "mcu \<Rightarrow> bool" where
  "tx_idle s \<longleftrightarrow> running s \<and> TACCTL0 s AND CCIE = 0 \<and> txBitCnt s = 10 \<and> TXD s"

text \<open>
  The invariant of a transmission: the transmit state \<open>n\<close> ticks after the frame of \<open>b\<close> was
  loaded at counter value \<open>T\<close>. Until tick 1144, where the stop bit begins and the handler
  switches its interrupt off, \<open>n div 104\<close> compare events have been served.
\<close>

definition tx_inv :: "u8 \<Rightarrow> u16 \<Rightarrow> nat \<Rightarrow> mcu \<Rightarrow> bool" where
  "tx_inv b T n s \<longleftrightarrow>
     running s \<and> TAR s = T + of_nat n \<and>
     (if n < 1144 then
        TACCR0 s = T + of_nat (104 * (n div 104 + 1))
        \<and> txBitCnt s = of_nat (10 - n div 104)
        \<and> txData s = drop_bit (n div 104) (frame b)
        \<and> TACCTL0 s = (if n div 104 = 0 \<or> bit (frame b) (n div 104 - 1)
                        then OUTMOD0 + CCIE else OUTMOD0 + CCIE + OUTMOD2)
        \<and> TXD s = (n div 104 \<le> 1 \<or> bit (frame b) (n div 104 - 2))
      else TACCTL0 s = OUTMOD0 \<and> TXD s \<and> txBitCnt s = 10)"

text \<open>
  The receiver awaits a start edge: channel 1 in capture mode on falling edges only, its
  interrupt enabled, the input seen at mark, the bit counter reloaded.
\<close>

definition rx_idle :: "mcu \<Rightarrow> bool" where
  "rx_idle s \<longleftrightarrow>
     TACCTL1 s AND CAP \<noteq> 0 \<and> TACCTL1 s AND CCIE \<noteq> 0 \<and> TACCTL1 s AND CM1 \<noteq> 0
     \<and> TACCTL1 s AND CM0 = 0 \<and> TACCTL1 s AND CCI \<noteq> 0 \<and> rxBitCnt s = 8"

text \<open>
  The invariant of a reception in loopback: the receive state \<open>n\<close> ticks after the frame of
  \<open>b\<close> was loaded at counter value \<open>T\<close>, with \<open>r0\<close> in the accumulator at that moment. The
  start edge is captured at tick 208, the samples are taken at the ticks \<open>364 + 104 * m\<close>, and
  the eighth sample at tick 1092 completes the frame.
\<close>

definition rx_inv :: "u8 \<Rightarrow> u16 \<Rightarrow> u8 \<Rightarrow> u8 \<Rightarrow> nat \<Rightarrow> mcu \<Rightarrow> bool" where
  "rx_inv b T r0 rb n s \<longleftrightarrow>
     TACCTL1 s AND CCIE \<noteq> 0 \<and> TACCTL1 s AND CM1 \<noteq> 0 \<and> TACCTL1 s AND CM0 = 0
     \<and> (TACCTL1 s AND CCI \<noteq> 0) = line_level b n
     \<and> (if n < 208 then
           TACCTL1 s AND CAP \<noteq> 0 \<and> rxBitCnt s = 8 \<and> rxData s = r0 \<and> rxBuffer s = rb
         else if n < 1092 then
           TACCTL1 s AND CAP = 0 \<and> rxBuffer s = rb
           \<and> TACCR1 s = T + of_nat (364 + 104 * ((n - 260) div 104))
           \<and> rxBitCnt s = of_nat (8 - (n - 260) div 104)
           \<and> rxData s = fold shift_in (map (bit b) [0..<(n - 260) div 104]) r0
         else TACCTL1 s AND CAP \<noteq> 0 \<and> rxBitCnt s = 8 \<and> rxBuffer s = b
              \<and> SR s AND LPM0_bits = 0)"

section \<open>Register bits\<close>

lemma single_bit:
  fixes w m :: u16
  assumes "m = 2 ^ k" and "k < 16"
  shows "(w AND m \<noteq> 0) = bit w k" and "(w AND m = 0) = (\<not> bit w k)"
    and "bit (w OR m) n = (bit w n \<or> n = k)" and "bit (w AND NOT m) n = (bit w n \<and> n \<noteq> k)"
    and "bit (w XOR m) n = (bit w n \<noteq> (n = k))"
  using assms by (auto simp add: and_exp_eq_0_iff_not_bit bit_simps dest: bit_imp_le_length)

lemma OUT_bits:
  "(w AND OUT \<noteq> 0) = bit w 2" "(w AND OUT = 0) = (\<not> bit w 2)"
  "bit (w OR OUT) n = (bit w n \<or> n = 2)" "bit (w AND NOT OUT) n = (bit w n \<and> n \<noteq> 2)"
  "bit (w XOR OUT) n = (bit w n \<noteq> (n = 2))"
  by (rule single_bit [where m = OUT and k = 2]; simp add: OUT_def)+

lemma CCI_bits:
  "(w AND CCI \<noteq> 0) = bit w 3" "(w AND CCI = 0) = (\<not> bit w 3)"
  "bit (w OR CCI) n = (bit w n \<or> n = 3)" "bit (w AND NOT CCI) n = (bit w n \<and> n \<noteq> 3)"
  "bit (w XOR CCI) n = (bit w n \<noteq> (n = 3))"
  by (rule single_bit [where m = CCI and k = 3]; simp add: CCI_def)+

lemma CCIE_bits:
  "(w AND CCIE \<noteq> 0) = bit w 4" "(w AND CCIE = 0) = (\<not> bit w 4)"
  "bit (w OR CCIE) n = (bit w n \<or> n = 4)" "bit (w AND NOT CCIE) n = (bit w n \<and> n \<noteq> 4)"
  "bit (w XOR CCIE) n = (bit w n \<noteq> (n = 4))"
  by (rule single_bit [where m = CCIE and k = 4]; simp add: CCIE_def)+

lemma OUTMOD0_bits:
  "(w AND OUTMOD0 \<noteq> 0) = bit w 5" "(w AND OUTMOD0 = 0) = (\<not> bit w 5)"
  "bit (w OR OUTMOD0) n = (bit w n \<or> n = 5)" "bit (w AND NOT OUTMOD0) n = (bit w n \<and> n \<noteq> 5)"
  "bit (w XOR OUTMOD0) n = (bit w n \<noteq> (n = 5))"
  by (rule single_bit [where m = OUTMOD0 and k = 5]; simp add: OUTMOD0_def)+

lemma OUTMOD1_bits:
  "(w AND OUTMOD1 \<noteq> 0) = bit w 6" "(w AND OUTMOD1 = 0) = (\<not> bit w 6)"
  "bit (w OR OUTMOD1) n = (bit w n \<or> n = 6)" "bit (w AND NOT OUTMOD1) n = (bit w n \<and> n \<noteq> 6)"
  "bit (w XOR OUTMOD1) n = (bit w n \<noteq> (n = 6))"
  by (rule single_bit [where m = OUTMOD1 and k = 6]; simp add: OUTMOD1_def)+

lemma OUTMOD2_bits:
  "(w AND OUTMOD2 \<noteq> 0) = bit w 7" "(w AND OUTMOD2 = 0) = (\<not> bit w 7)"
  "bit (w OR OUTMOD2) n = (bit w n \<or> n = 7)" "bit (w AND NOT OUTMOD2) n = (bit w n \<and> n \<noteq> 7)"
  "bit (w XOR OUTMOD2) n = (bit w n \<noteq> (n = 7))"
  by (rule single_bit [where m = OUTMOD2 and k = 7]; simp add: OUTMOD2_def)+

lemma CAP_bits:
  "(w AND CAP \<noteq> 0) = bit w 8" "(w AND CAP = 0) = (\<not> bit w 8)"
  "bit (w OR CAP) n = (bit w n \<or> n = 8)" "bit (w AND NOT CAP) n = (bit w n \<and> n \<noteq> 8)"
  "bit (w XOR CAP) n = (bit w n \<noteq> (n = 8))"
  by (rule single_bit [where m = CAP and k = 8]; simp add: CAP_def)+

lemma SCCI_bits:
  "(w AND SCCI \<noteq> 0) = bit w 10" "(w AND SCCI = 0) = (\<not> bit w 10)"
  "bit (w OR SCCI) n = (bit w n \<or> n = 10)" "bit (w AND NOT SCCI) n = (bit w n \<and> n \<noteq> 10)"
  "bit (w XOR SCCI) n = (bit w n \<noteq> (n = 10))"
  by (rule single_bit [where m = SCCI and k = 10]; simp add: SCCI_def)+

lemma CM0_bits:
  "(w AND CM0 \<noteq> 0) = bit w 14" "(w AND CM0 = 0) = (\<not> bit w 14)"
  "bit (w OR CM0) n = (bit w n \<or> n = 14)" "bit (w AND NOT CM0) n = (bit w n \<and> n \<noteq> 14)"
  "bit (w XOR CM0) n = (bit w n \<noteq> (n = 14))"
  by (rule single_bit [where m = CM0 and k = 14]; simp add: CM0_def)+

lemma CM1_bits:
  "(w AND CM1 \<noteq> 0) = bit w 15" "(w AND CM1 = 0) = (\<not> bit w 15)"
  "bit (w OR CM1) n = (bit w n \<or> n = 15)" "bit (w AND NOT CM1) n = (bit w n \<and> n \<noteq> 15)"
  "bit (w XOR CM1) n = (bit w n \<noteq> (n = 15))"
  by (rule single_bit [where m = CM1 and k = 15]; simp add: CM1_def)+

lemma GIE_bits:
  "(w AND GIE \<noteq> 0) = bit w 3" "(w AND GIE = 0) = (\<not> bit w 3)"
  "bit (w OR GIE) n = (bit w n \<or> n = 3)" "bit (w AND NOT GIE) n = (bit w n \<and> n \<noteq> 3)"
  "bit (w XOR GIE) n = (bit w n \<noteq> (n = 3))"
  by (rule single_bit [where m = GIE and k = 3]; simp add: GIE_def)+

lemma LPM0_bits_bits:
  "(w AND LPM0_bits \<noteq> 0) = bit w 4" "(w AND LPM0_bits = 0) = (\<not> bit w 4)"
  "bit (w OR LPM0_bits) n = (bit w n \<or> n = 4)" "bit (w AND NOT LPM0_bits) n = (bit w n \<and> n \<noteq> 4)"
  "bit (w XOR LPM0_bits) n = (bit w n \<noteq> (n = 4))"
  by (rule single_bit [where m = LPM0_bits and k = 4]; simp add: LPM0_bits_def)+

lemmas tst = OUT_bits CCI_bits CCIE_bits OUTMOD0_bits OUTMOD1_bits OUTMOD2_bits CAP_bits SCCI_bits CM0_bits CM1_bits GIE_bits LPM0_bits_bits

lemma tbit [simp]: "UART_TBIT = 104" "UART_TBIT_DIV_2 = 52"
  by (simp_all add: UART_TBIT_def UART_TBIT_DIV_2_def)

lemma bit_128_int: "bit (128::int) k = (k = 7)"
proof -
  have "bit (2 ^ 7 :: int) k = (k = 7)"
    by (simp only: bit_exp_iff) auto
  then show ?thesis by simp
qed

lemma shift_in_bit:
  "bit (shift_in l r) k = (if k = 7 then l else k < 7 \<and> bit r (Suc k))"
  by (auto simp add: shift_in_def bit_or_iff bit_drop_bit_eq bit_128_int dest: bit_imp_le_length)

lemma bit_byte_of: "bit (byte_of ls) k = (k < 8 \<and> k < length ls \<and> ls ! k)"
  unfolding byte_of_def 
  by (auto simp add: bit_horner_sum_bit_word_iff)

lemma fold_shift_in_bit:
  "bit (fold shift_in ls r) k =
     (if 8 \<le> k + length ls then k < 8 \<and> ls ! (k + length ls - 8) else bit r (k + length ls))"
proof (induction ls arbitrary: r)
  case Nil
  then show ?case by (auto dest: bit_imp_le_length)
next
  case (Cons l ls)
  show ?case
  proof (cases "8 \<le> k + length ls")
    case True
    then have "k + length ls - 7 = Suc (k + length ls - 8)" by arith
    with True show ?thesis by (simp add: Cons.IH)
  next
    case False
    then show ?thesis by (auto simp add: Cons.IH shift_in_bit)
  qed
qed

lemma fold_shift_in_8: "length ls = 8 \<Longrightarrow> fold shift_in ls r = byte_of ls"
  by (rule bit_word_eqI) (simp add: fold_shift_in_bit bit_byte_of)

section \<open>The receive handler\<close>

lemma A1_sampling:
  assumes "TACCTL1 s AND CAP = 0"
  shows "Timer_A1_ISR TAIV_TACCR1 s =
    (let r = shift_in (TACCTL1 s AND SCCI \<noteq> 0) (rxData s) in
     if rxBitCnt s = 1 then
       s\<lparr>TACCR1 := TACCR1 s + 104, TACCTL1 := TACCTL1 s OR CAP, SR := SR s AND NOT LPM0_bits,
         rxBuffer := r, rxBitCnt := 8, rxData := r\<rparr>
     else s\<lparr>TACCR1 := TACCR1 s + 104, rxBitCnt := rxBitCnt s - 1, rxData := r\<rparr>)"
  using assms by (simp add: Timer_A1_ISR_def shift_in_def Let_def)

lemma A1_capture:
  assumes "TACCTL1 s AND CAP \<noteq> 0"
  shows "Timer_A1_ISR TAIV_TACCR1 s =
    s\<lparr>TACCR1 := TACCR1 s + 156, TACCTL1 := TACCTL1 s AND NOT CAP\<rparr>"
  using assms by (simp add: Timer_A1_ISR_def Let_def)


lemma latch_CAP [simp]: "(TACCTL1 (latch_SCCI l s) AND CAP = 0) = (TACCTL1 s AND CAP = 0)"
  by (simp add: latch_SCCI_def tst)

lemma latch_test [simp]: "(TACCTL1 (latch_SCCI l s) AND SCCI \<noteq> 0) = l"
  by (simp add: latch_SCCI_def tst)

lemma latch_fields [simp]:
  "TACCR1 (latch_SCCI l s) = TACCR1 s" "rxData (latch_SCCI l s) = rxData s"
  "rxBitCnt (latch_SCCI l s) = rxBitCnt s" "SR (latch_SCCI l s) = SR s"
  by (simp_all add: latch_SCCI_def)

lemma set_clear:
  fixes w m :: "'a::len word"
  shows "(w OR m) AND NOT m = w AND NOT m" "(w AND NOT m) OR m = w OR m"
    "(w OR m) OR m = w OR m" "(w AND NOT m) AND NOT m = w AND NOT m"
  by (auto simp add: bit_eq_iff bit_simps)

lemma rx_sample_step:
  assumes "TACCTL1 s AND CAP = 0"
  shows "rx_sample l s =
    (if rxBitCnt s = 1 then
       s\<lparr>TACCR1 := TACCR1 s + 104, TACCTL1 := TACCTL1 (latch_SCCI l s) OR CAP,
         SR := SR s AND NOT LPM0_bits, rxBuffer := shift_in l (rxData s), rxBitCnt := 8,
         rxData := shift_in l (rxData s)\<rparr>
     else s\<lparr>TACCR1 := TACCR1 s + 104, TACCTL1 := TACCTL1 (latch_SCCI l s),
            rxBitCnt := rxBitCnt s - 1, rxData := shift_in l (rxData s)\<rparr>)"
proof -
  have "TACCTL1 (latch_SCCI l s) AND CAP = 0" using assms by simp
  from A1_sampling [OF this] show ?thesis
    by (simp add: rx_sample_def Let_def) (simp add: latch_SCCI_def)
qed

lemma unat_sub_of_nat: "n < unat (c::u8) \<Longrightarrow> unat (c - of_nat n) = unat c - n"
proof -
  assume a: "n < unat c"
  have "unat c < 256" using unsigned_less [of c, where 'a = nat] by simp
  with a have n: "unat (of_nat n :: u8) = n" by (simp add: unat_of_nat)
  with a have "(of_nat n :: u8) \<le> c" by (simp add: word_le_nat_alt)
  then show ?thesis using n by (simp add: unat_sub)
qed

lemma rx_samples:
  "lvls \<noteq> [] \<Longrightarrow> TACCTL1 s AND CAP = 0 \<Longrightarrow> length lvls < unat (rxBitCnt s) \<Longrightarrow>
   fold rx_sample lvls s =
     s\<lparr>TACCR1 := TACCR1 s + of_nat (104 * length lvls),
       TACCTL1 := TACCTL1 (latch_SCCI (last lvls) s),
       rxBitCnt := rxBitCnt s - of_nat (length lvls),
       rxData := fold shift_in lvls (rxData s)\<rparr>"
proof (induction lvls rule: rev_induct)
  case Nil
  then show ?case by simp
next
  case (snoc x xs)
  show ?case
  proof (cases "xs = []")
    case True
    from snoc.prems have "rxBitCnt s \<noteq> 1" by auto
    with True snoc.prems show ?thesis by (simp add: rx_sample_step)
  next
    case False
    let ?s1 = "fold rx_sample xs s"
    have len: "length xs < unat (rxBitCnt s)" using snoc.prems by simp
    note s1 = snoc.IH [OF False snoc.prems(2) len]
    have cap: "TACCTL1 ?s1 AND CAP = 0" using snoc.prems(2) by (simp add: s1)
    have "unat (rxBitCnt ?s1) = unat (rxBitCnt s) - length xs"
      by (simp add: s1 unat_sub_of_nat [OF len])
    with snoc.prems have "unat (rxBitCnt ?s1) \<noteq> 1" by simp
    then have cnt: "rxBitCnt ?s1 \<noteq> 1" by auto
    have "fold rx_sample (xs @ [x]) s = rx_sample x ?s1" by simp
    also have "\<dots> = ?s1\<lparr>TACCR1 := TACCR1 ?s1 + 104, TACCTL1 := TACCTL1 (latch_SCCI x ?s1),
            rxBitCnt := rxBitCnt ?s1 - 1, rxData := shift_in x (rxData ?s1)\<rparr>"
      using cnt by (simp add: rx_sample_step [OF cap])
    also have "\<dots> = s\<lparr>TACCR1 := TACCR1 s + of_nat (104 * length (xs @ [x])),
       TACCTL1 := TACCTL1 (latch_SCCI (last (xs @ [x])) s),
       rxBitCnt := rxBitCnt s - of_nat (length (xs @ [x])),
       rxData := fold shift_in (xs @ [x]) (rxData s)\<rparr>"
      by (simp add: s1 latch_SCCI_def set_clear algebra_simps)
    finally show ?thesis .
  qed
qed

lemma rx_frame_result:
  assumes cap: "TACCTL1 s AND CAP \<noteq> 0" and cnt: "rxBitCnt s = 8" and len: "length lvls = 8"
  shows "rx_frame t lvls s =
    s\<lparr>TACCR1 := t + 988, TACCTL1 := TACCTL1 (latch_SCCI (last lvls) s),
      SR := SR s AND NOT LPM0_bits, rxBuffer := byte_of lvls, rxBitCnt := 8,
      rxData := byte_of lvls\<rparr>"
proof -
  let ?s0 = "s\<lparr>TACCR1 := t + 156, TACCTL1 := TACCTL1 s AND NOT CAP\<rparr>"
  have s0: "rx_capture t s = ?s0"
    using cap by (simp add: rx_capture_def A1_capture)
  have cap0: "TACCTL1 ?s0 AND CAP = 0" by (simp add: tst)
  from len obtain l ls where lvls: "lvls = ls @ [l]" and ls: "length ls = 7"
    by (cases lvls rule: rev_cases) auto
  from ls have ne: "ls \<noteq> []" by auto
  have "length ls < unat (rxBitCnt ?s0)" by (simp add: cnt ls)
  note s7 = rx_samples [OF ne cap0 this]
  let ?s7 = "fold rx_sample ls ?s0"
  have cap7: "TACCTL1 ?s7 AND CAP = 0" using cap0 by (simp add: s7)
  have cnt7: "rxBitCnt ?s7 = 1" by (simp add: s7 cnt ls)
  have acc: "shift_in l (rxData ?s7) = byte_of lvls"
    using fold_shift_in_8 [OF len, of "rxData ?s0"] by (simp add: lvls s7)
  have "rx_frame t lvls s = rx_sample l ?s7" by (simp add: rx_frame_def lvls s0)
  also have "\<dots> = ?s7\<lparr>TACCR1 := TACCR1 ?s7 + 104, TACCTL1 := TACCTL1 (latch_SCCI l ?s7) OR CAP,
         SR := SR ?s7 AND NOT LPM0_bits, rxBuffer := byte_of lvls, rxBitCnt := 8,
         rxData := byte_of lvls\<rparr>"
    using cnt7 acc by (simp add: rx_sample_step [OF cap7])
  also have "\<dots> = s\<lparr>TACCR1 := t + 988, TACCTL1 := TACCTL1 (latch_SCCI (last lvls) s),
      SR := SR s AND NOT LPM0_bits, rxBuffer := byte_of lvls, rxBitCnt := 8,
      rxData := byte_of lvls\<rparr>"
  proof -
    have "TACCTL1 (latch_SCCI l ?s7) OR CAP = TACCTL1 (latch_SCCI l s)"
      using cap by (intro bit_word_eqI) (auto simp add: s7 latch_SCCI_def tst)
    then show ?thesis by (simp add: s7 ls lvls)
  qed
  finally show ?thesis .
qed

section \<open>Independence of the two handlers\<close>

lemma A0_frame:
  "TAR (Timer_A0_ISR s) = TAR s" "TACTL (Timer_A0_ISR s) = TACTL s"
  "TACCR1 (Timer_A0_ISR s) = TACCR1 s" "TACCTL1 (Timer_A0_ISR s) = TACCTL1 s"
  "SR (Timer_A0_ISR s) = SR s" "rxBuffer (Timer_A0_ISR s) = rxBuffer s"
  "rxBitCnt (Timer_A0_ISR s) = rxBitCnt s" "rxData (Timer_A0_ISR s) = rxData s"
  "mcu.more (Timer_A0_ISR s) = mcu.more s"
  by (simp_all add: Timer_A0_ISR_def write_TACCTL0_def Let_def)

lemma A1_frame:
  "TAR (Timer_A1_ISR taiv s) = TAR s" "TACTL (Timer_A1_ISR taiv s) = TACTL s"
  "TACCR0 (Timer_A1_ISR taiv s) = TACCR0 s" "TACCTL0 (Timer_A1_ISR taiv s) = TACCTL0 s"
  "txData (Timer_A1_ISR taiv s) = txData s" "txBitCnt (Timer_A1_ISR taiv s) = txBitCnt s"
  "TXD (Timer_A1_ISR taiv s) = TXD s"
  by (simp_all add: Timer_A1_ISR_def Let_def)





section \<open>Start-up state\<close>

lemmas start_defs = TimerA_UART_init_def enable_interrupt_def reset_def write_TACCTL0_def
  OUT_def CCI_def CCIE_def OUTMOD0_def OUTMOD1_def OUTMOD2_def CAP_def SCCI_def SCS_def
  CM0_def CM1_def MC_2_def MC_3_def TASSEL_2_def GIE_def LPM0_bits_def TAIV_TACCR1_def

lemma started:
  "TACCTL1 (TimerA_UART_init (enable_interrupt reset)) AND CAP \<noteq> 0"
  "rxBitCnt (TimerA_UART_init (enable_interrupt reset)) = 8"
  "rxData (TimerA_UART_init (enable_interrupt reset)) = 0"
  by (simp_all add: start_defs)

lemma byte_of_0x41: "byte_of [True, False, False, False, False, False, True, False] = 0x41"
  by (simp add: byte_of_def)

lemma started_sampling:
  "Timer_A1_ISR TAIV_TACCR1 (TimerA_UART_init (enable_interrupt reset)) =
     TimerA_UART_init (enable_interrupt reset)
       \<lparr>TACCR1 := 156, TACCTL1 := TACCTL1 (TimerA_UART_init (enable_interrupt reset)) AND NOT CAP\<rparr>"
  using A1_capture [OF started(1)] by (simp add: start_defs)

lemma byte_of_0x5A: "byte_of [False, True, False, True, True, False, True, False] = 0x5A"
  by (simp add: byte_of_def)

section \<open>The bit periods and the handlers\<close>

text \<open>
  C5. The bit periods are the truncated quotients \<open>1000000 div 9600 = 104\<close> ticks and
  \<open>104 div 2 = 52\<close> ticks (the macro divides by \<open>9600 * 2\<close>, which is the same number);
  both are positive, the half period is within one tick of half the full period, and
  both fit the 16-bit compare registers they are added to.
\<close>

theorem bit_period_constants:
  "UART_TBIT = 1000000 div 9600 \<and> UART_TBIT_DIV_2 = UART_TBIT div 2
   \<and> UART_TBIT = 104 \<and> UART_TBIT_DIV_2 = 52
   \<and> 0 < UART_TBIT \<and> 0 < UART_TBIT_DIV_2
   \<and> \<bar>2 * int UART_TBIT_DIV_2 - int UART_TBIT\<bar> \<le> 2
   \<and> unat (of_nat UART_TBIT :: u16) = 104 \<and> unat (of_nat UART_TBIT_DIV_2 :: u16) = 52"
  by (simp add: UART_TBIT_def UART_TBIT_DIV_2_def)


text \<open>
  C4, as amended. When the handler runs for a capture (CAP set, TACCR1 holding the
  captured time), it switches channel 1 to compare mode and sets the next target to the
  captured time plus a full and a half bit period; it leaves the accumulator and the bit
  counter as they are.
\<close>

theorem rx_start_edge:
  assumes "TACCTL1 s AND CAP \<noteq> 0"
  shows "Timer_A1_ISR TAIV_TACCR1 s =
           s\<lparr>TACCR1 := TACCR1 s + of_nat UART_TBIT + of_nat UART_TBIT_DIV_2,
             TACCTL1 := TACCTL1 s AND NOT CAP\<rparr>
         \<and> TACCTL1 (Timer_A1_ISR TAIV_TACCR1 s) AND CAP = 0
         \<and> rxData (Timer_A1_ISR TAIV_TACCR1 s) = rxData s
         \<and> rxBitCnt (Timer_A1_ISR TAIV_TACCR1 s) = rxBitCnt s"
  using assms by (simp add: A1_capture tst)

theorem rx_start_edge_witness:
  "TACCTL1 (TimerA_UART_init (enable_interrupt reset)) AND CAP \<noteq> 0
   \<and> TACCR1 (Timer_A1_ISR TAIV_TACCR1 (TimerA_UART_init (enable_interrupt reset)
        \<lparr>TACCR1 := 1000\<rparr>)) = 1156
   \<and> TACCTL1 (Timer_A1_ISR TAIV_TACCR1 (TimerA_UART_init (enable_interrupt reset)
        \<lparr>TACCR1 := 1000\<rparr>)) AND CAP = 0"
proof -
  have h: "TACCTL1 (TimerA_UART_init (enable_interrupt reset)\<lparr>TACCR1 := 1000\<rparr>) AND CAP \<noteq> 0"
    by (simp add: start_defs)
  from rx_start_edge [OF h] h show ?thesis by (simp add: tst)
qed

text \<open>
  C4 as stated fails: after a frame carrying 0x41 has been received, the handler run for
  the next start edge leaves 0x41 in the accumulator and 8 in the bit counter; it resets
  neither to 0.
\<close>

theorem rx_start_edge_keeps_accumulator:
  "TACCTL1 (rx_frame 0 [True, False, False, False, False, False, True, False]
       (TimerA_UART_init (enable_interrupt reset))) AND CAP \<noteq> 0
   \<and> rxData (Timer_A1_ISR TAIV_TACCR1 (rx_frame 0 [True, False, False, False, False, False, True, False]
       (TimerA_UART_init (enable_interrupt reset)))) = 0x41
   \<and> rxBitCnt (Timer_A1_ISR TAIV_TACCR1 (rx_frame 0 [True, False, False, False, False, False, True, False]
       (TimerA_UART_init (enable_interrupt reset)))) = 8
   \<and> \<not> (rxData (Timer_A1_ISR TAIV_TACCR1 (rx_frame 0 [True, False, False, False, False, False, True, False]
       (TimerA_UART_init (enable_interrupt reset)))) = 0
      \<and> rxBitCnt (Timer_A1_ISR TAIV_TACCR1 (rx_frame 0 [True, False, False, False, False, False, True, False]
       (TimerA_UART_init (enable_interrupt reset)))) = 0)"
proof -
  let ?s = "rx_frame 0 [True, False, False, False, False, False, True, False]
       (TimerA_UART_init (enable_interrupt reset))"
  have fr: "?s = TimerA_UART_init (enable_interrupt reset)
      \<lparr>TACCR1 := 988,
        TACCTL1 := TACCTL1 (latch_SCCI False (TimerA_UART_init (enable_interrupt reset))),
        SR := SR (TimerA_UART_init (enable_interrupt reset)) AND NOT LPM0_bits,
        rxBuffer := 0x41, rxBitCnt := 8, rxData := 0x41\<rparr>"
    using rx_frame_result [OF started(1) started(2), of _ 0] by (simp add: byte_of_0x41)
  have cap: "TACCTL1 ?s AND CAP \<noteq> 0"
    unfolding fr using started(1) by simp
  show ?thesis
    using cap by (simp add: A1_capture) (simp add: fr)
qed

text \<open>
  C3. In compare mode (Sampling) every run of the handler advances TACCR1 by exactly one
  full bit period and shifts the accumulator right by one, with the SCCI latch as the new
  top bit; the live level in the CCI bit has no influence. Eight such steps from a
  reloaded bit counter leave the eight latched levels in the accumulator, the \<open>k\<close>-th
  sample at bit \<open>k\<close>, and have advanced the target by eight bit periods.
\<close>

theorem rx_sampling:
  assumes "TACCTL1 s AND CAP = 0"
  shows "TACCR1 (Timer_A1_ISR TAIV_TACCR1 s) = TACCR1 s + of_nat UART_TBIT
    \<and> rxData (Timer_A1_ISR TAIV_TACCR1 s) =
        drop_bit 1 (rxData s) OR (if TACCTL1 s AND SCCI \<noteq> 0 then 0x80 else 0)
    \<and> rxData (Timer_A1_ISR TAIV_TACCR1 (s\<lparr>TACCTL1 := TACCTL1 s XOR CCI\<rparr>)) =
        rxData (Timer_A1_ISR TAIV_TACCR1 s)
    \<and> (rxBitCnt s = 8 \<and> length lvls = 8 \<longrightarrow>
          rxData (fold rx_sample lvls s) = byte_of lvls
        \<and> (\<forall>k<8. bit (rxData (fold rx_sample lvls s)) k = lvls ! k)
        \<and> TACCR1 (fold rx_sample lvls s) = TACCR1 s + 8 * of_nat UART_TBIT)"
proof -
  have one: "TACCR1 (Timer_A1_ISR TAIV_TACCR1 s) = TACCR1 s + of_nat UART_TBIT
    \<and> rxData (Timer_A1_ISR TAIV_TACCR1 s) =
        drop_bit 1 (rxData s) OR (if TACCTL1 s AND SCCI \<noteq> 0 then 0x80 else 0)"
    by (simp add: A1_sampling [OF assms] Let_def shift_in_def)
  let ?s = "s\<lparr>TACCTL1 := TACCTL1 s XOR CCI\<rparr>"
  have c: "TACCTL1 ?s AND CAP = 0"
    "((TACCTL1 s XOR CCI) AND SCCI \<noteq> 0) = (TACCTL1 s AND SCCI \<noteq> 0)"
    using assms by (simp_all add: tst)
  have live: "rxData (Timer_A1_ISR TAIV_TACCR1 ?s) = rxData (Timer_A1_ISR TAIV_TACCR1 s)"
    by (simp add: A1_sampling [OF assms] A1_sampling [OF c(1)] c(2) Let_def)
  have eight: "rxData (fold rx_sample lvls s) = byte_of lvls
        \<and> (\<forall>k<8. bit (rxData (fold rx_sample lvls s)) k = lvls ! k)
        \<and> TACCR1 (fold rx_sample lvls s) = TACCR1 s + 8 * of_nat UART_TBIT"
    if cnt: "rxBitCnt s = 8" and len: "length lvls = 8"
  proof -
    from len obtain l ls where lvls: "lvls = ls @ [l]" and ls: "length ls = 7"
      by (cases lvls rule: rev_cases) auto
    from ls have ne: "ls \<noteq> []" by auto
    have "length ls < unat (rxBitCnt s)" by (simp add: cnt ls)
    note s7 = rx_samples [OF ne assms this]
    let ?s7 = "fold rx_sample ls s"
    have cap7: "TACCTL1 ?s7 AND CAP = 0" using assms by (simp add: s7)
    have acc: "shift_in l (rxData ?s7) = byte_of lvls"
      using fold_shift_in_8 [OF len, of "rxData s"] by (simp add: lvls s7)
    have f: "fold rx_sample lvls s = rx_sample l ?s7" by (simp add: lvls)
    have "rxData (rx_sample l ?s7) = byte_of lvls"
      using acc by (simp add: rx_sample_step [OF cap7])
    moreover have "TACCR1 (rx_sample l ?s7) = TACCR1 s + 832"
      by (simp add: rx_sample_step [OF cap7]) (simp add: s7 ls)
    ultimately show ?thesis using len by (simp add: f bit_byte_of)
  qed
  from one live eight show ?thesis by blast
qed

theorem rx_sampling_witness:
  "TACCTL1 (Timer_A1_ISR TAIV_TACCR1 (TimerA_UART_init (enable_interrupt reset))) AND CAP = 0
   \<and> rxBitCnt (Timer_A1_ISR TAIV_TACCR1 (TimerA_UART_init (enable_interrupt reset))) = 8
   \<and> length [True, False, False, False, False, False, True, False] = 8
   \<and> rxData (fold rx_sample [True, False, False, False, False, False, True, False]
        (Timer_A1_ISR TAIV_TACCR1 (TimerA_UART_init (enable_interrupt reset)))) = 0x41
   \<and> TACCR1 (fold rx_sample [True, False, False, False, False, False, True, False]
        (Timer_A1_ISR TAIV_TACCR1 (TimerA_UART_init (enable_interrupt reset)))) = 988"
proof -
  let ?s = "Timer_A1_ISR TAIV_TACCR1 (TimerA_UART_init (enable_interrupt reset))"
  have h: "TACCTL1 ?s AND CAP = 0" by (simp add: started_sampling tst)
  have c: "rxBitCnt ?s = 8" "TACCR1 ?s = 156" by (simp_all add: started_sampling started)
  from rx_sampling [OF h, of "[True, False, False, False, False, False, True, False]"] h c
  show ?thesis by (simp add: byte_of_0x41)
qed

text \<open>
  C7. The handler run that takes the eighth sample (bit counter 1 on entry, in compare
  mode) stores the completed accumulator in \<open>rxBuffer\<close>, clears the LPM0 bits of the status
  register (the wake-up of the main loop), puts channel 1 back into capture mode and
  reloads the bit counter. Byte and wake-up belong to one run of the handler: every run
  either leaves both \<open>rxBuffer\<close> and the status register as they were or performs both
  the store and the wake-up.
\<close>

theorem rx_frame_complete:
  assumes "TACCTL1 s AND CAP = 0" and "rxBitCnt s = 1"
  shows "rxData (Timer_A1_ISR TAIV_TACCR1 s) =
           drop_bit 1 (rxData s) OR (if TACCTL1 s AND SCCI \<noteq> 0 then 0x80 else 0)
    \<and> rxBuffer (Timer_A1_ISR TAIV_TACCR1 s) = rxData (Timer_A1_ISR TAIV_TACCR1 s)
    \<and> SR (Timer_A1_ISR TAIV_TACCR1 s) = SR s AND NOT LPM0_bits
    \<and> SR (Timer_A1_ISR TAIV_TACCR1 s) AND LPM0_bits = 0
    \<and> TACCTL1 (Timer_A1_ISR TAIV_TACCR1 s) AND CAP \<noteq> 0
    \<and> rxBitCnt (Timer_A1_ISR TAIV_TACCR1 s) = 8
    \<and> ((rxBuffer (Timer_A1_ISR taiv s') = rxBuffer s' \<and> SR (Timer_A1_ISR taiv s') = SR s')
       \<or> (rxBuffer (Timer_A1_ISR taiv s') = rxData (Timer_A1_ISR taiv s')
          \<and> SR (Timer_A1_ISR taiv s') = SR s' AND NOT LPM0_bits))"
proof -
  have "(rxBuffer (Timer_A1_ISR taiv s') = rxBuffer s' \<and> SR (Timer_A1_ISR taiv s') = SR s')
       \<or> (rxBuffer (Timer_A1_ISR taiv s') = rxData (Timer_A1_ISR taiv s')
          \<and> SR (Timer_A1_ISR taiv s') = SR s' AND NOT LPM0_bits)"
    by (simp add: Timer_A1_ISR_def Let_def)
  moreover have "rxData (Timer_A1_ISR TAIV_TACCR1 s) =
           drop_bit 1 (rxData s) OR (if TACCTL1 s AND SCCI \<noteq> 0 then 0x80 else 0)
    \<and> rxBuffer (Timer_A1_ISR TAIV_TACCR1 s) = rxData (Timer_A1_ISR TAIV_TACCR1 s)
    \<and> SR (Timer_A1_ISR TAIV_TACCR1 s) = SR s AND NOT LPM0_bits
    \<and> SR (Timer_A1_ISR TAIV_TACCR1 s) AND LPM0_bits = 0
    \<and> TACCTL1 (Timer_A1_ISR TAIV_TACCR1 s) AND CAP \<noteq> 0
    \<and> rxBitCnt (Timer_A1_ISR TAIV_TACCR1 s) = 8"
    using assms(2) by (simp add: A1_sampling [OF assms(1)] Let_def shift_in_def tst CAP_def)
  ultimately show ?thesis by blast
qed

theorem rx_frame_complete_witness:
  "TACCTL1 (fold rx_sample [True, False, False, False, False, False, True]
      (Timer_A1_ISR TAIV_TACCR1 (TimerA_UART_init (enable_interrupt reset)))) AND CAP = 0
   \<and> rxBitCnt (fold rx_sample [True, False, False, False, False, False, True]
      (Timer_A1_ISR TAIV_TACCR1 (TimerA_UART_init (enable_interrupt reset)))) = 1
   \<and> rxBuffer (Timer_A1_ISR TAIV_TACCR1 (fold rx_sample [True, False, False, False, False, False, True]
      (Timer_A1_ISR TAIV_TACCR1 (TimerA_UART_init (enable_interrupt reset))))) = 0xC1
   \<and> SR (Timer_A1_ISR TAIV_TACCR1 (fold rx_sample [True, False, False, False, False, False, True]
      (Timer_A1_ISR TAIV_TACCR1 (TimerA_UART_init (enable_interrupt reset))))) AND LPM0_bits = 0"
proof -
  let ?a = "Timer_A1_ISR TAIV_TACCR1 (TimerA_UART_init (enable_interrupt reset))"
  let ?ls = "[True, False, False, False, False, False, True]"
  let ?s = "fold rx_sample ?ls ?a"
  have h0: "TACCTL1 ?a AND CAP = 0" by (simp add: started_sampling tst)
  have c0: "rxBitCnt ?a = 8" "rxData ?a = 0" by (simp_all add: started_sampling started)
  have len: "length ?ls < unat (rxBitCnt ?a)" by (simp add: c0)
  note s7 = rx_samples [OF list.distinct(2) h0 len]
  have h: "TACCTL1 ?s AND CAP = 0" unfolding s7 using h0 by simp
  have c: "rxBitCnt ?s = 1" unfolding s7 by (simp add: c0)
  have d: "rxData ?s = 0x82" unfolding s7 by (simp add: c0 shift_in_def)
  have e: "TACCTL1 ?s AND SCCI \<noteq> 0" unfolding s7 by simp
  note t = rx_frame_complete [OF h c]
  from t have "rxBuffer (Timer_A1_ISR TAIV_TACCR1 ?s) = 0xC1"
    by (simp add: d e del: fold.simps)
  moreover from t have "SR (Timer_A1_ISR TAIV_TACCR1 ?s) AND LPM0_bits = 0" by blast
  ultimately show ?thesis using h c by blast
qed

text \<open>
  C10. Two receive frames (start edge and eight samples) with the same eight latched
  levels, started with different contents of the accumulator, end in the same state and
  deliver the same byte, the one made of the eight levels.
\<close>

theorem rx_frame_forgets_accumulator:
  assumes "TACCTL1 s AND CAP \<noteq> 0" and "rxBitCnt s = 8" and "length lvls = 8"
  shows "rx_frame t lvls (s\<lparr>rxData := r1\<rparr>) = rx_frame t lvls (s\<lparr>rxData := r2\<rparr>)
    \<and> rxBuffer (rx_frame t lvls (s\<lparr>rxData := r1\<rparr>)) = byte_of lvls
    \<and> rxBuffer (rx_frame t lvls (s\<lparr>rxData := r2\<rparr>)) = byte_of lvls"
proof -
  have a: "TACCTL1 (s\<lparr>rxData := r\<rparr>) AND CAP \<noteq> 0" "rxBitCnt (s\<lparr>rxData := r\<rparr>) = 8" for r
    using assms by simp_all
  show ?thesis
    by (simp add: rx_frame_result [OF a assms(3)] latch_SCCI_def)
qed

theorem rx_frame_forgets_accumulator_witness:
  "TACCTL1 (TimerA_UART_init (enable_interrupt reset)) AND CAP \<noteq> 0
   \<and> rxBitCnt (TimerA_UART_init (enable_interrupt reset)) = 8
   \<and> length [True, False, False, False, False, False, True, False] = 8
   \<and> rx_frame 0 [True, False, False, False, False, False, True, False]
        (TimerA_UART_init (enable_interrupt reset)\<lparr>rxData := 0xFF\<rparr>) =
      rx_frame 0 [True, False, False, False, False, False, True, False]
        (TimerA_UART_init (enable_interrupt reset)\<lparr>rxData := 0x00\<rparr>)
   \<and> rxBuffer (rx_frame 0 [True, False, False, False, False, False, True, False]
        (TimerA_UART_init (enable_interrupt reset)\<lparr>rxData := 0xFF\<rparr>)) = 0x41"
  using rx_frame_forgets_accumulator [OF started(1) started(2),
      of "[True, False, False, False, False, False, True, False]" 0 "0xFF" "0x00"] started
  by (simp add: byte_of_0x41)

text \<open>
  C8. The mailbox is the single variable \<open>rxBuffer\<close>. The first of two received frames
  delivers its byte and wakes the main loop; when the second frame completes before
  \<open>rxBuffer\<close> is read, \<open>rxBuffer\<close> holds the second byte, and the whole state is the one that
  the second frame alone would have produced: nothing records the lost byte.
\<close>

theorem mailbox_last_write_wins:
  assumes "TACCTL1 s AND CAP \<noteq> 0" and "rxBitCnt s = 8"
    and "length lvls1 = 8" and "length lvls2 = 8"
  shows "rxBuffer (rx_frame t1 lvls1 s) = byte_of lvls1
    \<and> SR (rx_frame t1 lvls1 s) AND LPM0_bits = 0
    \<and> rxBuffer (rx_frame t2 lvls2 (rx_frame t1 lvls1 s)) = byte_of lvls2
    \<and> rx_frame t2 lvls2 (rx_frame t1 lvls1 s) = rx_frame t2 lvls2 s"
proof -
  note f1 = rx_frame_result [OF assms(1) assms(2) assms(3), of t1]
  have a: "TACCTL1 (rx_frame t1 lvls1 s) AND CAP \<noteq> 0" "rxBitCnt (rx_frame t1 lvls1 s) = 8"
    using assms(1) by (simp_all add: f1 latch_SCCI_def tst)
  note f2 = rx_frame_result [OF a assms(4), of t2]
  note f2' = rx_frame_result [OF assms(1) assms(2) assms(4), of t2]
  have "SR (rx_frame t1 lvls1 s) AND LPM0_bits = 0"
    by (simp add: f1 tst)
  moreover have "rx_frame t2 lvls2 (rx_frame t1 lvls1 s) = rx_frame t2 lvls2 s"
    unfolding f2 f2' by (simp add: f1 latch_SCCI_def set_clear)
  ultimately show ?thesis by (simp add: f2' f1)
qed

theorem mailbox_last_write_wins_witness:
  "TACCTL1 (TimerA_UART_init (enable_interrupt reset)) AND CAP \<noteq> 0
   \<and> rxBitCnt (TimerA_UART_init (enable_interrupt reset)) = 8
   \<and> length [True, False, False, False, False, False, True, False] = 8
   \<and> length [False, True, False, True, True, False, True, False] = 8
   \<and> rxBuffer (rx_frame 0 [True, False, False, False, False, False, True, False]
        (TimerA_UART_init (enable_interrupt reset))) = 0x41
   \<and> rxBuffer (rx_frame 2000 [False, True, False, True, True, False, True, False]
        (rx_frame 0 [True, False, False, False, False, False, True, False]
          (TimerA_UART_init (enable_interrupt reset)))) = 0x5A"
proof -
  have l: "length [True, False, False, False, False, False, True, False] = 8"
    "length [False, True, False, True, True, False, True, False] = 8" by simp_all
  note t = mailbox_last_write_wins [OF started(1) started(2) l, of 0 2000]
  from t have "rxBuffer (rx_frame 0 [True, False, False, False, False, False, True, False]
        (TimerA_UART_init (enable_interrupt reset))) =
      byte_of [True, False, False, False, False, False, True, False]"
    by blast
  moreover from t have "rxBuffer (rx_frame 2000 [False, True, False, True, True, False, True, False]
        (rx_frame 0 [True, False, False, False, False, False, True, False]
          (TimerA_UART_init (enable_interrupt reset)))) =
      byte_of [False, True, False, True, True, False, True, False]"
    by blast
  ultimately show ?thesis using started l by (simp only: byte_of_0x41 byte_of_0x5A) blast
qed

section \<open>Transmission\<close>

lemma of_nat_eq16: "a < 65536 \<Longrightarrow> b < 65536 \<Longrightarrow> (of_nat a = (of_nat b :: u16)) = (a = b)"
  by (simp add: word_of_nat_eq_iff take_bit_nat_eq_self)

lemma bit_frame: "bit (frame b) k = (if k = 0 then False else if k < 9 then bit b (k - 1) else k = 9)"
proof -
  have f: "frame b = push_bit 1 (ucast b OR CAP)" by (simp add: frame_def CAP_def)
  have u: "bit (ucast b :: u16) j = bit b j" for j
    by (auto simp add: bit_ucast_iff dest: bit_imp_le_length)
  have "bit (frame b) k = (1 \<le> k \<and> k < 16 \<and> (bit b (k - 1) \<or> k - 1 = 8))"
    unfolding f by (simp only: bit_push_bit_iff CAP_bits u) (auto simp add: possible_bit_word)
  also have "\<dots> = (if k = 0 then False else if k < 9 then bit b (k - 1) else k = 9)"
    by (auto dest: bit_imp_le_length)
  finally show ?thesis .
qed


lemma frame_levels_nth: "k < 10 \<Longrightarrow> frame_levels b ! k = bit (frame b) k"
proof -
  assume k: "k < 10"
  consider "k = 0" | "0 < k" "k < 9" | "k = 9" using k by linarith
  then show ?thesis
  proof cases
    case 1
    then show ?thesis by (simp add: frame_levels_def bit_frame)
  next
    case 2
    then obtain j where j: "k = Suc j" "j < 8" by (cases k) auto
    then show ?thesis by (simp add: frame_levels_def bit_frame nth_append)
  next
    case 3
    then have "k = Suc 8" by simp
    then show ?thesis by (simp add: frame_levels_def bit_frame nth_append)
  qed
qed

lemma tx_inv_level: "tx_inv b T n s \<Longrightarrow> TXD s = line_level b n"
proof -
  assume a: "tx_inv b T n s"
  show ?thesis
  proof (cases "n < 1144")
    case True
    then have q: "n div 104 \<le> 10" by simp
    show ?thesis
    proof (cases "n < 208")
      case True
      then have "n div 104 \<le> 1" by simp
      with a True \<open>n < 1144\<close> show ?thesis by (simp add: tx_inv_def line_level_def)
    next
      case False
      then have e: "(n - 208) div 104 = n div 104 - 2" by simp
      from False have "\<not> n div 104 \<le> 1" by simp
      moreover have "n div 104 - 2 < 10" using q by simp
      ultimately show ?thesis
        using a True False by (simp add: tx_inv_def line_level_def e frame_levels_nth)
    qed
  next
    case False
    then have "9 \<le> (n - 208) div 104" by simp
    then have "(n - 208) div 104 < 10 \<Longrightarrow> (n - 208) div 104 = 9" by simp
    with a False show ?thesis
      by (auto simp add: tx_inv_def line_level_def frame_levels_nth bit_frame)
  qed
qed




lemmas mask_defs = OUT_def CCI_def CCIE_def OUTMOD0_def OUTMOD1_def OUTMOD2_def CAP_def
  SCCI_def SCS_def CM0_def CM1_def GIE_def LPM0_bits_def

lemma test_bit0: "((w::u16) AND 1 \<noteq> 0) = bit w 0"
  by (simp add: and_one_eq bit_0 mod_2_eq_odd)

lemma equ0_output_modes:
  "TACCTL0 s = OUTMOD0 + CCIE \<Longrightarrow> equ0_output s = s\<lparr>TXD := True\<rparr>"
  "TACCTL0 s = OUTMOD0 + CCIE + OUTMOD2 \<Longrightarrow> equ0_output s = s\<lparr>TXD := False\<rparr>"
  "TACCTL0 s = OUTMOD0 \<Longrightarrow> equ0_output s = s\<lparr>TXD := True\<rparr>"
  by (simp_all add: equ0_output_def mask_defs)

lemma A0_done:
  assumes "txBitCnt s = 0" and "TACCTL0 s = OUTMOD0 + CCIE"
  shows "Timer_A0_ISR s = s\<lparr>TACCR0 := TACCR0 s + 104, TACCTL0 := OUTMOD0, txBitCnt := 10\<rparr>"
  using assms
  by (simp add: Timer_A0_ISR_def write_TACCTL0_def Let_def mask_defs)

lemma A0_bit:
  assumes c: "txBitCnt s \<noteq> 0"
    and m: "TACCTL0 s = OUTMOD0 + CCIE \<or> TACCTL0 s = OUTMOD0 + CCIE + OUTMOD2"
  shows "Timer_A0_ISR s =
    s\<lparr>TACCR0 := TACCR0 s + 104,
      TACCTL0 := (if bit (txData s) 0 then OUTMOD0 + CCIE else OUTMOD0 + CCIE + OUTMOD2),
      txData := drop_bit 1 (txData s), txBitCnt := txBitCnt s - 1\<rparr>"
proof (cases "bit (txData s) 0")
  case True
  from m show ?thesis
  proof
    assume "TACCTL0 s = OUTMOD0 + CCIE"
    with c True show ?thesis
      by (simp add: Timer_A0_ISR_def write_TACCTL0_def Let_def test_bit0 mask_defs)
  next
    assume "TACCTL0 s = OUTMOD0 + CCIE + OUTMOD2"
    with c True show ?thesis
      by (simp add: Timer_A0_ISR_def write_TACCTL0_def Let_def test_bit0 mask_defs)
  qed
next
  case False
  from m show ?thesis
  proof
    assume "TACCTL0 s = OUTMOD0 + CCIE"
    with c False show ?thesis
      by (simp add: Timer_A0_ISR_def write_TACCTL0_def Let_def test_bit0 mask_defs)
  next
    assume "TACCTL0 s = OUTMOD0 + CCIE + OUTMOD2"
    with c False show ?thesis
      by (simp add: Timer_A0_ISR_def write_TACCTL0_def Let_def test_bit0 mask_defs)
  qed
qed

lemma A1_GIE: "(SR (Timer_A1_ISR v s) AND GIE = 0) = (SR s AND GIE = 0)"
  by (simp add: Timer_A1_ISR_def Let_def tst)

lemma irq1_frame:
  "TAR (irq1 s) = TAR s" "TACTL (irq1 s) = TACTL s"
  "TACCR0 (irq1 s) = TACCR0 s" "TACCTL0 (irq1 s) = TACCTL0 s"
  "txData (irq1 s) = txData s" "txBitCnt (irq1 s) = txBitCnt s"
  "TXD (irq1 s) = TXD s" "(SR (irq1 s) AND GIE = 0) = (SR s AND GIE = 0)"
  by (simp_all add: irq1_def A1_frame A1_GIE)

lemma chan1_frame:
  "TAR (chan1 rxd s) = TAR s" "TACTL (chan1 rxd s) = TACTL s"
  "TACCR0 (chan1 rxd s) = TACCR0 s" "TACCTL0 (chan1 rxd s) = TACCTL0 s"
  "txData (chan1 rxd s) = txData s" "txBitCnt (chan1 rxd s) = txBitCnt s"
  "TXD (chan1 rxd s) = TXD s" "(SR (chan1 rxd s) AND GIE = 0) = (SR s AND GIE = 0)"
  by (simp_all add: chan1_def Let_def irq1_frame show_CCI_def latch_SCCI_def)

lemma tx_inv_chan1: "tx_inv b T n (chan1 rxd s) = tx_inv b T n s"
  by (simp add: tx_inv_def running_def chan1_frame)

lemma of_nat_u8_0: "k < 256 \<Longrightarrow> (of_nat k = (0::u8)) = (k = 0)"
proof -
  assume "k < 256"
  then have u: "unat (of_nat k :: u8) = k" by (simp add: unat_of_nat)
  show ?thesis
  proof
    assume "of_nat k = (0::u8)"
    then have "unat (of_nat k :: u8) = 0" by simp
    with u show "k = 0" by simp
  next
    assume "k = 0"
    then show "of_nat k = (0::u8)" by simp
  qed
qed

lemma chan0_count_event:
  "TAR s + 1 = TACCR0 s \<Longrightarrow> chan0 (count s) = irq0 (equ0_output (s\<lparr>TAR := TAR s + 1\<rparr>))"
  by (simp add: chan0_def count_def)

lemma chan0_count_quiet:
  "TAR s + 1 \<noteq> TACCR0 s \<Longrightarrow> chan0 (count s) = s\<lparr>TAR := TAR s + 1\<rparr>"
  by (simp add: chan0_def count_def)
lemma idle_event: "TACCTL0 t = OUTMOD0 \<Longrightarrow> irq0 (equ0_output t) = t\<lparr>TXD := True\<rparr>"
  by (simp add: equ0_output_modes(3) irq0_def) (simp add: mask_defs)
lemma tx_idle_step:
  assumes inv: "tx_inv b T n s" and n: "\<not> n < 1144"
  shows "tx_inv b T (Suc n) (chan0 (count s))"
proof -
  from inv n have st: "running s" "TAR s = T + of_nat n" "TACCTL0 s = OUTMOD0" "TXD s"
    "txBitCnt s = 10"
    by (simp_all add: tx_inv_def)
  have i: "tx_inv b T (Suc n) (s\<lparr>TAR := TAR s + 1\<rparr>)"
    using st n by (simp add: tx_inv_def running_def)
  show ?thesis
  proof (cases "TAR s + 1 = TACCR0 s")
    case True
    have "irq0 (equ0_output (s\<lparr>TAR := TAR s + 1\<rparr>)) = s\<lparr>TAR := TAR s + 1, TXD := True\<rparr>"
      using st by (simp add: idle_event)
    also have "\<dots> = s\<lparr>TAR := TAR s + 1\<rparr>" using st by simp
    finally show ?thesis using i by (simp only: chan0_count_event [OF True])
  next
    case False
    show ?thesis using i by (simp only: chan0_count_quiet [OF False])
  qed
qed

lemma div104:
  fixes n :: nat
  assumes "n mod 104 \<noteq> 103"
  shows "Suc n div 104 = n div 104" "n < 1144 \<Longrightarrow> Suc n < 1144"
proof -
  define q where "q = n div 104"
  define r where "r = n mod 104"
  have n: "n = 104 * q + r" and r: "r < 104" by (simp_all add: q_def r_def)
  from assms r have r': "Suc r < 104" by (simp add: r_def)
  have "Suc n = q * 104 + Suc r" using n by simp
  with r' show "Suc n div 104 = n div 104" by (simp add: q_def [symmetric])
  assume "n < 1144"
  then have "q \<le> 10" by (simp add: q_def)
  then have "104 * q \<le> 1040" by simp
  with n r' show "Suc n < 1144" by simp
qed

lemma div104':
  fixes n :: nat
  assumes "n mod 104 = 103"
  shows "Suc n = 104 * (n div 104 + 1)"
proof -
  have "n = 104 * (n div 104) + n mod 104" by simp
  with assms show ?thesis by simp
qed

lemma div104'':
  fixes n :: nat
  shows "(Suc n = 104 * (n div 104 + 1)) = (n mod 104 = 103)"
proof -
  define q where "q = n div 104"
  define r where "r = n mod 104"
  have n: "n = 104 * q + r" by (simp add: q_def r_def)
  have "(Suc n = 104 * (q + 1)) = (r = 103)" using n by arith
  then show ?thesis by (simp only: q_def r_def)
qed


lemma tx_phase:
  assumes inv: "tx_inv b T n s" and n: "n < 1144"
  shows "running s" "TAR s = T + of_nat n"
    "TACCR0 s = T + of_nat (104 * (n div 104 + 1))" "txBitCnt s = of_nat (10 - n div 104)"
    "txData s = drop_bit (n div 104) (frame b)"
    "TACCTL0 s = (if n div 104 = 0 \<or> bit (frame b) (n div 104 - 1)
                  then OUTMOD0 + CCIE else OUTMOD0 + CCIE + OUTMOD2)"
    "TXD s = (n div 104 \<le> 1 \<or> bit (frame b) (n div 104 - 2))"
  using inv n by (simp_all add: tx_inv_def)

lemma tx_event_iff:
  assumes inv: "tx_inv b T n s" and n: "n < 1144"
  shows "(TAR s + 1 = TACCR0 s) = (n mod 104 = 103)"
proof -
  note st = tx_phase [OF inv n]
  have q: "n div 104 \<le> 10" using n by simp
  have "(TAR s + 1 = TACCR0 s) = (of_nat (Suc n) = (of_nat (104 * (n div 104 + 1)) :: u16))"
    by (simp add: st(2) st(3))
  also have "\<dots> = (Suc n = 104 * (n div 104 + 1))"
    using n q by (intro of_nat_eq16) simp_all
  also have "\<dots> = (n mod 104 = 103)"
    by (rule div104'')
  finally show ?thesis .
qed


lemma tx_quiet_step:
  assumes inv: "tx_inv b T n s" and n: "n < 1144" and r: "n mod 104 \<noteq> 103"
  shows "tx_inv b T (Suc n) (chan0 (count s))"
proof -
  note st = tx_phase [OF inv n]
  note d = div104(1) [OF r]
  note m = div104(2) [OF r n]
  have "TAR s + 1 \<noteq> TACCR0 s" using tx_event_iff [OF inv n] r by simp
  then have "chan0 (count s) = s\<lparr>TAR := TAR s + 1\<rparr>" by (rule chan0_count_quiet)
  moreover have "tx_inv b T (Suc n) (s\<lparr>TAR := TAR s + 1\<rparr>)"
    unfolding tx_inv_def using st m by (simp add: d running_def)
  ultimately show ?thesis by simp
qed

lemma tx_event_step:
  assumes inv: "tx_inv b T n s" and n: "n < 1144" and r: "n mod 104 = 103"
  shows "tx_inv b T (Suc n) (chan0 (count s))"
proof -
  note st = tx_phase [OF inv n]
  define q where "q = n div 104"
  have q: "q \<le> 10" using n by (simp add: q_def)
  from r have sn: "Suc n = 104 * (q + 1)" unfolding q_def by (rule div104')
  have ev: "TAR s + 1 = TACCR0 s" using tx_event_iff [OF inv n] r by simp
  let ?s1 = "s\<lparr>TAR := TAR s + 1\<rparr>"
  let ?lvl = "q = 0 \<or> bit (frame b) (q - 1)"
  let ?s2 = "?s1\<lparr>TXD := ?lvl\<rparr>"
  have ctl: "TACCTL0 s = (if ?lvl then OUTMOD0 + CCIE else OUTMOD0 + CCIE + OUTMOD2)"
    using st(6) by (simp add: q_def)
  have out: "equ0_output ?s1 = ?s2"
    by (cases ?lvl) (simp_all add: ctl equ0_output_modes)
  have ctl2: "TACCTL0 ?s2 = OUTMOD0 + CCIE \<or> TACCTL0 ?s2 = OUTMOD0 + CCIE + OUTMOD2"
    by (simp add: ctl)
  have gie: "SR ?s2 AND GIE \<noteq> 0" using st(1) by (simp add: running_def)
  have "TACCTL0 ?s2 AND CCIE \<noteq> 0"
    using ctl2 by (auto simp add: mask_defs)
  with gie have ie: "irq0 ?s2 = Timer_A0_ISR ?s2" by (simp add: irq0_def)
  have c0: "chan0 (count s) = Timer_A0_ISR ?s2"
    by (simp only: chan0_count_event [OF ev] out ie)
  have run: "running (Timer_A0_ISR ?s2)"
    using st(1) by (simp add: running_def A0_frame)
  have tar: "TAR (Timer_A0_ISR ?s2) = T + of_nat (Suc n)"
    by (simp add: A0_frame st(2))
  show ?thesis
  proof (cases "q = 10")
    case True
    then have l: "bit (frame b) (q - 1)" by (simp add: bit_frame)
    have "txBitCnt ?s2 = 0" using True st(4) by (simp add: q_def)
    moreover have "TACCTL0 ?s2 = OUTMOD0 + CCIE" using l by (simp add: ctl)
    ultimately have "Timer_A0_ISR ?s2 =
        ?s2\<lparr>TACCR0 := TACCR0 ?s2 + 104, TACCTL0 := OUTMOD0, txBitCnt := 10\<rparr>"
      by (rule A0_done)
    then have "TACCTL0 (Timer_A0_ISR ?s2) = OUTMOD0" "TXD (Timer_A0_ISR ?s2)"
      "txBitCnt (Timer_A0_ISR ?s2) = 10"
      using l by simp_all
    moreover have "\<not> Suc n < 1144" using sn True by simp
    ultimately show ?thesis
      unfolding c0 tx_inv_def using run tar by simp
  next
    case False
    with q have q9: "q < 10" by simp
    then have "10 - q = Suc (10 - Suc q)" by simp
    then have cnt: "(of_nat (10 - q) :: u8) - 1 = of_nat (10 - Suc q)"
      by (simp del: of_nat_diff)
    have c4: "txBitCnt s = of_nat (10 - q)" using st(4) unfolding q_def .
    have "(of_nat (10 - q) :: u8) \<noteq> 0"
      using of_nat_u8_0 [of "10 - q"] q9 by (simp del: of_nat_diff)
    then have nz: "txBitCnt ?s2 \<noteq> 0" by (simp add: c4 del: of_nat_diff)
    have d: "Suc n div 104 = Suc q" "Suc n < 1144" using sn q9 by simp_all
    have b0: "bit (txData ?s2) 0 = bit (frame b) q"
      using st(5) by (simp add: q_def bit_drop_bit_eq)
    note isr = A0_bit [OF nz ctl2]
    have f: "TACCR0 (Timer_A0_ISR ?s2) = T + of_nat (104 * (Suc q + 1))"
      "txBitCnt (Timer_A0_ISR ?s2) = of_nat (10 - Suc q)"
      "txData (Timer_A0_ISR ?s2) = drop_bit (Suc q) (frame b)"
      "TACCTL0 (Timer_A0_ISR ?s2) =
         (if bit (frame b) q then OUTMOD0 + CCIE else OUTMOD0 + CCIE + OUTMOD2)"
      "TXD (Timer_A0_ISR ?s2) = ?lvl"
      unfolding isr using st(3) st(5) cnt b0
      by (simp_all add: c4 q_def [symmetric] algebra_simps del: of_nat_diff)
    have l: "(Suc q \<le> 1 \<or> bit (frame b) (Suc q - 2)) = ?lvl"
      by (cases q) simp_all
    show ?thesis
      unfolding c0 tx_inv_def d using run tar f d(2) l by simp
  qed
qed


lemma tx_inv_tick:
  assumes inv: "tx_inv b T n s"
  shows "tx_inv b T (Suc n) (tick rxd s)"
proof -
  have "tx_inv b T (Suc n) (chan0 (count s))"
  proof (cases "n < 1144")
    case False
    then show ?thesis by (rule tx_idle_step [OF inv])
  next
    case True
    then show ?thesis
      by (cases "n mod 104 = 103") (simp_all add: tx_quiet_step [OF inv] tx_event_step [OF inv])
  qed
  moreover from inv have "TACTL s AND MC_3 = MC_2" by (simp add: tx_inv_def running_def)
  ultimately show ?thesis by (simp add: tick_def tx_inv_chan1)
qed

lemma tx_inv_run: "tx_inv b T n s \<Longrightarrow> tx_inv b T (n + length rxds) (run rxds s)"
proof (induction rxds arbitrary: n s)
  case Nil
  then show ?case by (simp add: run_def)
next
  case (Cons x xs)
  from Cons.IH [OF tx_inv_tick [OF Cons.prems, of x]] show ?case by (simp add: run_def)
qed

lemma txData_load: "txData (tx_load b s) = frame b"
  by (simp add: tx_load_def frame_def write_TACCTL0_def Let_def push_bit_eq_mult)

lemma tx_load_fields:
  "TAR (tx_load b s) = TAR s" "TACTL (tx_load b s) = TACTL s" "SR (tx_load b s) = SR s"
  "TACCR0 (tx_load b s) = TAR s + 104" "TACCTL0 (tx_load b s) = OUTMOD0 + CCIE"
  "txBitCnt (tx_load b s) = txBitCnt s" "TXD (tx_load b s) = TXD s"
  "TACCR1 (tx_load b s) = TACCR1 s" "TACCTL1 (tx_load b s) = TACCTL1 s"
  "rxBuffer (tx_load b s) = rxBuffer s" "rxBitCnt (tx_load b s) = rxBitCnt s"
  "rxData (tx_load b s) = rxData s"
  by (simp_all add: tx_load_def write_TACCTL0_def Let_def mask_defs)

lemma tx_inv_load: "tx_idle s \<Longrightarrow> tx_inv b (TAR s) 0 (tx_load b s)"
  by (simp add: tx_idle_def tx_inv_def running_def tx_load_fields txData_load)

lemma wait_tx_idle: "TACCTL0 s AND CCIE = 0 \<Longrightarrow> wait_tx rx s = Some s"
  by (subst wait_tx.simps) simp

lemma tx_idle_call: "tx_idle s \<Longrightarrow> TimerA_UART_tx rx b s = Some (tx_load b s)"
  by (simp add: TimerA_UART_tx_def tx_idle_def wait_tx_idle)

lemma frame_levels_0x41:
  "frame_levels 0x41 = [False, True, False, False, False, False, False, True, False, True]"
  by (simp add: frame_levels_def upt_rec bit_numeral_rec)

lemma tx_wave: "tx_idle s \<Longrightarrow> TXD (run rxds (tx_load b s)) = line_level b (length rxds)"
  using tx_inv_level [OF tx_inv_run [OF tx_inv_load, of s b rxds]] by simp

lemma started_idle: "tx_idle (TimerA_UART_init (enable_interrupt reset))"
  by (simp add: tx_idle_def running_def start_defs)

lemma tx_inv_CCIE: "tx_inv b T n s \<Longrightarrow> (TACCTL0 s AND CCIE = 0) = (\<not> n < 1144)"
proof (cases "n < 1144")
  case True
  assume "tx_inv b T n s"
  from tx_phase(6) [OF this True]
  have "TACCTL0 s = OUTMOD0 + CCIE \<or> TACCTL0 s = OUTMOD0 + CCIE + OUTMOD2"
    by (simp split: if_splits)
  then have "TACCTL0 s AND CCIE \<noteq> 0" by (auto simp add: mask_defs)
  with True show ?thesis by simp
next
  case False
  assume "tx_inv b T n s"
  with False have "TACCTL0 s = OUTMOD0" by (simp add: tx_inv_def)
  then have "TACCTL0 s AND CCIE = 0" by (simp add: mask_defs)
  with False show ?thesis by simp
qed

lemma run_map_Suc: "run (map rx [0..<Suc k]) s = run (map (\<lambda>i. rx (Suc i)) [0..<k]) (tick (rx 0) s)"
proof -
  have "map rx [0..<Suc k] = rx 0 # map (\<lambda>i. rx (Suc i)) [0..<k]"
    by (simp add: upt_rec [of 0] map_Suc_upt [symmetric] del: upt_Suc)
  then show ?thesis by (simp add: run_def)
qed

lemma wait_tx_inflight:
  "tx_inv b T n s \<Longrightarrow> n + k = 1144 \<Longrightarrow> wait_tx rx s = Some (run (map rx [0..<k]) s)"
proof (induction k arbitrary: n s rx)
  case 0
  then have "TACCTL0 s AND CCIE = 0" by (simp add: tx_inv_CCIE)
  then show ?case by (simp add: wait_tx_idle run_def)
next
  case (Suc k)
  then have c: "TACCTL0 s AND CCIE \<noteq> 0" by (simp add: tx_inv_CCIE)
  from Suc.prems have "Suc n + k = 1144" by simp
  from Suc.IH [OF tx_inv_tick [OF Suc.prems(1)] this]
  have "wait_tx (\<lambda>i. rx (Suc i)) (tick (rx 0) s) =
      Some (run (map (\<lambda>i. rx (Suc i)) [0..<k]) (tick (rx 0) s))" .
  then show ?case using c by (subst wait_tx.simps) (simp add: run_map_Suc del: upt_Suc)
qed

lemma tx_inv_idle: "tx_inv b T n s \<Longrightarrow> \<not> n < 1144 \<Longrightarrow> tx_idle s"
  by (simp add: tx_inv_def tx_idle_def mask_defs)

text \<open>
  A call made any number of ticks after a frame was loaded, in flight or not, returns
  when that frame has reached the idle state, and leaves the transmitter idle for its
  own frame.
\<close>

lemma tx_call_after_load:
  assumes idle: "tx_idle s0"
  shows "TimerA_UART_tx rx b (run pre (tx_load a s0)) =
           Some (tx_load b (run (map rx [0..<11 * UART_TBIT - length pre]) (run pre (tx_load a s0))))
    \<and> tx_idle (run (map rx [0..<11 * UART_TBIT - length pre]) (run pre (tx_load a s0)))"
proof -
  define s where "s = run pre (tx_load a s0)"
  define n where "n = length pre"
  define w where "w = 1144 - n"
  have w: "11 * UART_TBIT - length pre = w" by (simp add: w_def n_def)
  have inv: "tx_inv a (TAR s0) n s"
    using tx_inv_run [OF tx_inv_load [OF idle], of a pre] by (simp add: s_def n_def)
  have invw: "tx_inv a (TAR s0) (n + w) (run (map rx [0..<w]) s)"
    using tx_inv_run [OF inv, of "map rx [0..<w]"] by simp
  have "\<not> n + w < 1144" by (simp add: w_def)
  note idle_w = tx_inv_idle [OF invw this]
  have "wait_tx rx s = Some (run (map rx [0..<w]) s)"
  proof (cases "n < 1144")
    case True
    then have "n + w = 1144" by (simp add: w_def)
    then show ?thesis by (rule wait_tx_inflight [OF inv])
  next
    case False
    then have "w = 0" by (simp add: w_def)
    moreover have "TACCTL0 s AND CCIE = 0" using tx_inv_CCIE [OF inv] False by simp
    ultimately show ?thesis by (simp add: wait_tx_idle run_def)
  qed
  then have "TimerA_UART_tx rx b s = Some (tx_load b (run (map rx [0..<w]) s))"
    by (simp add: TimerA_UART_tx_def)
  with idle_w show ?thesis unfolding w s_def by simp
qed

text \<open>
  C2. Every call of \<open>TimerA_UART_tx\<close> returns with the frame of \<open>b\<close> loaded, and from the
  return on the TXD pin carries, tick by tick and whatever arrives on RXD, the waveform
  \<open>line_level b\<close>: mark, then exactly the ten levels of the frame (start bit 0, the eight
  data bits of \<open>b\<close> from bit 0 upwards, stop bit 1), each for one bit period, then mark for
  ever. This holds for a call in an idle state, which returns at once, and for a call made
  \<open>length pre\<close> ticks after an earlier frame of \<open>a\<close> was loaded, which first waits until tick
  1144 of that frame. For 0x41 the levels at the compare events, one bit period apart, are
  1 (idle), 0 (start), 1,0,0,0,0,0,1,0 (d0 to d7), 1 (stop).
\<close>

theorem tx_frame_wave:
  assumes "tx_idle s"
  shows "TimerA_UART_tx rx b s = Some (tx_load b s)
    \<and> TXD (run rxds (tx_load b s)) = line_level b (length rxds)
    \<and> map_option (\<lambda>s'. TXD (run rxds s')) (TimerA_UART_tx rx b s) =
        Some (line_level b (length rxds))
    \<and> TimerA_UART_tx rx b (run pre (tx_load a s)) =
        Some (tx_load b (run (map rx [0..<11 * UART_TBIT - length pre]) (run pre (tx_load a s))))
    \<and> map_option (\<lambda>s'. TXD (run rxds s')) (TimerA_UART_tx rx b (run pre (tx_load a s))) =
        Some (line_level b (length rxds))
    \<and> length (frame_levels b) = 10
    \<and> map (\<lambda>k. TXD (run (replicate (k * UART_TBIT) lvl) (tx_load 0x41 s))) [1..<12] =
        [True, False, True, False, False, False, False, False, True, False, True]"
proof -
  have 1: "TimerA_UART_tx rx b s = Some (tx_load b s)"
    using assms by (rule tx_idle_call)
  have 2: "TXD (run rxds (tx_load b s)) = line_level b (length rxds)"
    using assms by (rule tx_wave)
  have 3: "map_option (\<lambda>s'. TXD (run rxds s')) (TimerA_UART_tx rx b s) =
        Some (line_level b (length rxds))"
    by (simp add: 1 2)
  note c = tx_call_after_load [OF assms, of rx b pre a]
  have 4: "TimerA_UART_tx rx b (run pre (tx_load a s)) =
        Some (tx_load b (run (map rx [0..<11 * UART_TBIT - length pre]) (run pre (tx_load a s))))"
    using c by (rule conjunct1)
  have 5: "map_option (\<lambda>s'. TXD (run rxds s')) (TimerA_UART_tx rx b (run pre (tx_load a s))) =
        Some (line_level b (length rxds))"
    unfolding 4 using tx_wave [OF conjunct2 [OF c], of rxds b] by simp
  have 6: "length (frame_levels b) = 10" by (simp add: frame_levels_def)
  have "map (\<lambda>k. line_level 0x41 (k * UART_TBIT)) [1..<12] =
        [True, False, True, False, False, False, False, False, True, False, True]"
    by (simp add: upt_rec line_level_def frame_levels_0x41)
  then have 7: "map (\<lambda>k. TXD (run (replicate (k * UART_TBIT) lvl) (tx_load 0x41 s))) [1..<12] =
        [True, False, True, False, False, False, False, False, True, False, True]"
    using assms by (simp add: tx_wave)
  from 1 2 3 4 5 6 7 show ?thesis by blast
qed

theorem tx_frame_wave_witness:
  "tx_idle (TimerA_UART_init (enable_interrupt reset))
   \<and> TimerA_UART_tx (\<lambda>i. True) 0x41 (TimerA_UART_init (enable_interrupt reset)) =
       Some (tx_load 0x41 (TimerA_UART_init (enable_interrupt reset)))
   \<and> TXD (run (replicate 250 True) (tx_load 0x41 (TimerA_UART_init (enable_interrupt reset))))
       = False
   \<and> TXD (run (replicate 350 True) (tx_load 0x41 (TimerA_UART_init (enable_interrupt reset))))
       = True
   \<and> map_option (\<lambda>s'. TXD (run (replicate 250 True) s'))
        (TimerA_UART_tx (\<lambda>i. True) 0x5A
          (run (replicate 500 True) (tx_load 0x41 (TimerA_UART_init (enable_interrupt reset)))))
       = Some False"
proof -
  note t = tx_frame_wave [OF started_idle, where rx = "\<lambda>i. True"]
  have "line_level 0x41 250 = False" "line_level 0x41 350 = True"
    by (simp_all add: line_level_def frame_levels_0x41)
  moreover have "line_level 0x5A 250 = False"
    by (simp add: line_level_def frame_levels_def)
  ultimately have l: "line_level 0x41 250 = False" "line_level 0x41 350 = True"
    "line_level 0x5A 250 = False" by simp_all
  have a: "TXD (run (replicate 250 True) (tx_load 0x41 (TimerA_UART_init (enable_interrupt reset))))
       = False"
    using t [where b = "0x41" and rxds = "replicate 250 True"] l by simp
  have b: "TXD (run (replicate 350 True) (tx_load 0x41 (TimerA_UART_init (enable_interrupt reset))))
       = True"
    using t [where b = "0x41" and rxds = "replicate 350 True"] l by simp
  have "map_option (\<lambda>s'. TXD (run (replicate 250 True) s'))
        (TimerA_UART_tx (\<lambda>i. True) 0x5A
          (run (replicate 500 True) (tx_load 0x41 (TimerA_UART_init (enable_interrupt reset)))))
       = Some (line_level 0x5A (length (replicate 250 True)))"
    using t [where b = "0x5A" and rxds = "replicate 250 True" and pre = "replicate 500 True"
        and a = "0x41"] by blast
  then have c: "map_option (\<lambda>s'. TXD (run (replicate 250 True) s'))
        (TimerA_UART_tx (\<lambda>i. True) 0x5A
          (run (replicate 500 True) (tx_load 0x41 (TimerA_UART_init (enable_interrupt reset)))))
       = Some False"
    by (simp only: length_replicate l)
  from t [where b = "0x41"] have d: "TimerA_UART_tx (\<lambda>i. True) 0x41
        (TimerA_UART_init (enable_interrupt reset)) =
       Some (tx_load 0x41 (TimerA_UART_init (enable_interrupt reset)))"
    by blast
  from started_idle d a b c show ?thesis by blast
qed



section \<open>Loopback\<close>

lemma samp_arith:
  fixes n :: nat
  assumes "208 \<le> n"
  shows "Suc n \<noteq> 364 + 104 * ((n - 260) div 104) \<Longrightarrow> (Suc n - 260) div 104 = (n - 260) div 104"
    and "Suc n = 364 + 104 * ((n - 260) div 104) \<Longrightarrow> (Suc n - 260) div 104 = Suc ((n - 260) div 104)"
    and "n < 1092 \<Longrightarrow> (n - 260) div 104 \<le> 7"
    and "Suc n = 364 + 104 * ((n - 260) div 104) \<Longrightarrow> (Suc n < 1092) = ((n - 260) div 104 < 7)"
proof -
  define q where "q = (n - 260) div 104"
  define r where "r = (n - 260) mod 104"
  have k: "n - 260 = 104 * q + r" and r: "r < 104" by (simp_all add: q_def r_def)
  show "(Suc n - 260) div 104 = q" if "Suc n \<noteq> 364 + 104 * q"
  proof (cases "n < 260")
    case True
    then have "Suc n - 260 = 0" by simp
    moreover from True have "q = 0" by (simp add: q_def)
    ultimately show ?thesis by simp
  next
    case False
    with k have n: "n = 260 + 104 * q + r" by simp
    with that have "r \<noteq> 103" by simp
    with r have "Suc r < 104" by simp
    moreover from n have "Suc n - 260 = q * 104 + Suc r" by simp
    ultimately show ?thesis by simp
  qed
  show "(Suc n - 260) div 104 = Suc q" if "Suc n = 364 + 104 * q"
  proof -
    from that have "Suc n - 260 = Suc q * 104" by simp
    then show ?thesis by simp
  qed
  show "q \<le> 7" if "n < 1092"
  proof -
    from that have "n - 260 < 832" by simp
    then have "(n - 260) div 104 < 8" by simp
    then show ?thesis by (simp add: q_def)
  qed
  show "(Suc n < 1092) = (q < 7)" if "Suc n = 364 + 104 * q"
    using that by simp
qed

lemma of_nat_eq8: "a < 256 \<Longrightarrow> b < 256 \<Longrightarrow> (of_nat a = (of_nat b :: u8)) = (a = b)"
  by (simp add: word_of_nat_eq_iff take_bit_nat_eq_self)

lemma ll_idle: "n < 208 \<Longrightarrow> line_level b n"
  by (simp add: line_level_def)

lemma ll_start: "\<not> line_level b 208"
  by (simp add: line_level_def frame_levels_def)

lemma ll_sample: "m < 8 \<Longrightarrow> line_level b (364 + 104 * m) = bit b m"
proof -
  assume m: "m < 8"
  have "364 + 104 * m - 208 = Suc m * 104 + 52" by simp
  then have "(364 + 104 * m - 208) div 104 = Suc m" by simp
  with m show ?thesis by (simp add: line_level_def frame_levels_nth bit_frame)
qed

lemma line_level_alt:
  "208 \<le> n \<Longrightarrow>
   line_level b n = ((n - 208) div 104 < 10 \<longrightarrow> frame_levels b ! ((n - 208) div 104))"
  by (simp add: line_level_def)

lemma ll_tail: "1092 \<le> n \<Longrightarrow> line_level b n \<Longrightarrow> line_level b (Suc n)"
proof -
  assume n: "1092 \<le> n" and l: "line_level b n"
  define k where "k = (n - 208) div 104"
  define k' where "k' = (Suc n - 208) div 104"
  have "n - 208 \<ge> 884" using n by simp
  then have "(n - 208) div 104 \<ge> 884 div 104" by (rule div_le_mono)
  then have k: "8 \<le> k" by (simp add: k_def)
  have "k \<le> k'" unfolding k_def k'_def by (rule div_le_mono) simp
  have "Suc n - 208 \<le> (n - 208) + 104" by simp
  then have "(Suc n - 208) div 104 \<le> ((n - 208) + 104) div 104" by (rule div_le_mono)
  then have "k' \<le> Suc k" by (simp add: k_def k'_def)
  consider "k' = k" | "k' = Suc k" using \<open>k \<le> k'\<close> \<open>k' \<le> Suc k\<close> by linarith
  then show ?thesis
  proof cases
    case 1
    from n have "208 \<le> n" "208 \<le> Suc n" by simp_all
    with l 1 show ?thesis by (simp only: line_level_alt k_def k'_def)
  next
    case 2
    with k have "9 \<le> k'" by simp
    then have "k' < 10 \<Longrightarrow> k' = 9" by simp
    then have "k' < 10 \<Longrightarrow> frame_levels b ! k'" by (simp add: frame_levels_nth bit_frame)
    moreover from n have "208 \<le> Suc n" by simp
    ultimately show ?thesis by (simp only: line_level_alt k'_def) simp
  qed
qed

lemma show_CCI_bits:
  "(TACCTL1 (show_CCI l s) AND CCI \<noteq> 0) = l"
  "(TACCTL1 (show_CCI l s) AND CAP = 0) = (TACCTL1 s AND CAP = 0)"
  "(TACCTL1 (show_CCI l s) AND CCIE = 0) = (TACCTL1 s AND CCIE = 0)"
  "(TACCTL1 (show_CCI l s) AND CM0 = 0) = (TACCTL1 s AND CM0 = 0)"
  "(TACCTL1 (show_CCI l s) AND CM1 = 0) = (TACCTL1 s AND CM1 = 0)"
  by (simp_all add: show_CCI_def tst)

lemma show_CCI_fields:
  "TAR (show_CCI l s) = TAR s" "TACCR1 (show_CCI l s) = TACCR1 s" "SR (show_CCI l s) = SR s"
  "rxBuffer (show_CCI l s) = rxBuffer s" "rxBitCnt (show_CCI l s) = rxBitCnt s"
  "rxData (show_CCI l s) = rxData s"
  by (simp_all add: show_CCI_def)

lemma chan1_no_edge:
  assumes "TACCTL1 s AND CAP \<noteq> 0" and "TACCTL1 s AND CM0 = 0"
    and "TACCTL1 s AND CCI \<noteq> 0 \<Longrightarrow> rxd"
  shows "chan1 rxd s = show_CCI rxd s"
  using assms by (auto simp add: chan1_def Let_def show_CCI_bits)

lemma chan1_edge:
  assumes "TACCTL1 s AND CAP \<noteq> 0" and "TACCTL1 s AND CM1 \<noteq> 0" and "TACCTL1 s AND CCI \<noteq> 0"
    and "TACCTL1 s AND CCIE \<noteq> 0" and "SR s AND GIE \<noteq> 0"
  shows "chan1 False s = rx_capture (TAR s) (show_CCI False s)"
  using assms
  by (simp add: chan1_def Let_def show_CCI_bits show_CCI_fields irq1_def rx_capture_def)

lemma chan1_no_match:
  assumes "TACCTL1 s AND CAP = 0" and "TAR s \<noteq> TACCR1 s"
  shows "chan1 rxd s = show_CCI rxd s"
  using assms by (simp add: chan1_def Let_def show_CCI_bits show_CCI_fields)

lemma chan1_match:
  assumes "TACCTL1 s AND CAP = 0" and "TAR s = TACCR1 s"
    and "TACCTL1 s AND CCIE \<noteq> 0" and "SR s AND GIE \<noteq> 0"
  shows "chan1 rxd s = rx_sample rxd (show_CCI rxd s)"
proof -
  have "TACCTL1 (latch_SCCI rxd (show_CCI rxd s)) AND CCIE \<noteq> 0"
    using assms(3) by (simp add: latch_SCCI_def show_CCI_def tst)
  moreover have "SR (latch_SCCI rxd (show_CCI rxd s)) AND GIE \<noteq> 0"
    using assms(4) by (simp add: show_CCI_fields)
  ultimately have "irq1 (latch_SCCI rxd (show_CCI rxd s)) = rx_sample rxd (show_CCI rxd s)"
    by (simp add: irq1_def rx_sample_def)
  then show ?thesis
    using assms(1,2) by (simp add: chan1_def Let_def show_CCI_bits show_CCI_fields)
qed

lemma byte_of_bits: "byte_of (map (bit b) [0..<8]) = b"
  by (rule bit_word_eqI) (auto simp add: bit_byte_of simp del: upt_Suc)

lemma latch_bits:
  "(TACCTL1 (latch_SCCI l s) AND CCI = 0) = (TACCTL1 s AND CCI = 0)"
  "(TACCTL1 (latch_SCCI l s) AND CCIE = 0) = (TACCTL1 s AND CCIE = 0)"
  "(TACCTL1 (latch_SCCI l s) AND CM0 = 0) = (TACCTL1 s AND CM0 = 0)"
  "(TACCTL1 (latch_SCCI l s) AND CM1 = 0) = (TACCTL1 s AND CM1 = 0)"
  by (simp_all add: latch_SCCI_def tst)

lemma set_CAP_test: "((w::u16) OR CAP) AND CAP \<noteq> 0"
  by (simp add: tst CAP_def)

lemma set_CAP_bits:
  "(((w::u16) OR CAP) AND CCI = 0) = (w AND CCI = 0)"
  "((w OR CAP) AND CCIE = 0) = (w AND CCIE = 0)"
  "((w OR CAP) AND CM0 = 0) = (w AND CM0 = 0)"
  "((w OR CAP) AND CM1 = 0) = (w AND CM1 = 0)"
  by (simp_all add: tst)

lemma clear_CAP_bits:
  "((w::u16) AND NOT CAP) AND CAP = 0"
  "((w AND NOT CAP) AND CCI = 0) = (w AND CCI = 0)"
  "((w AND NOT CAP) AND CCIE = 0) = (w AND CCIE = 0)"
  "((w AND NOT CAP) AND CM0 = 0) = (w AND CM0 = 0)"
  "((w AND NOT CAP) AND CM1 = 0) = (w AND CM1 = 0)"
  by (simp_all add: tst)

lemma rx_common:
  assumes "rx_inv b T r0 rb n s"
  shows "TACCTL1 s AND CCIE \<noteq> 0" "TACCTL1 s AND CM1 \<noteq> 0" "TACCTL1 s AND CM0 = 0"
    "(TACCTL1 s AND CCI \<noteq> 0) = line_level b n"
  using assms by (simp_all add: rx_inv_def)

lemma rx_step_idle:
  assumes inv: "rx_inv b T r0 rb n s" and n: "Suc n < 208"
  shows "rx_inv b T r0 rb (Suc n) (chan1 (line_level b (Suc n)) s)"
proof -
  from inv n have st: "TACCTL1 s AND CAP \<noteq> 0" "rxBitCnt s = 8" "rxData s = r0"
    "rxBuffer s = rb"
    by (simp_all add: rx_inv_def)
  have l: "line_level b (Suc n)" using n by (rule ll_idle)
  have "chan1 True s = show_CCI True s"
    by (rule chan1_no_edge [OF st(1) rx_common(3) [OF inv]]) simp
  moreover have "rx_inv b T r0 rb (Suc n) (show_CCI True s)"
    unfolding rx_inv_def using rx_common [OF inv] st n l
    by (simp add: show_CCI_bits show_CCI_fields)
  ultimately show ?thesis using l by simp
qed

lemma rx_step_edge:
  assumes inv: "rx_inv b T r0 rb n s" and n: "Suc n = 208"
    and tar: "TAR s = T + of_nat (Suc n)" and gie: "SR s AND GIE \<noteq> 0"
  shows "rx_inv b T r0 rb (Suc n) (chan1 (line_level b (Suc n)) s)"
proof -
  from n have n': "n < 208" by simp
  with inv have st: "TACCTL1 s AND CAP \<noteq> 0" "rxBitCnt s = 8" "rxData s = r0"
    "rxBuffer s = rb"
    by (simp_all add: rx_inv_def)
  have cci: "TACCTL1 s AND CCI \<noteq> 0" using rx_common(4) [OF inv] ll_idle [OF n'] by simp
  have l: "\<not> line_level b (Suc n)" unfolding n by (rule ll_start)
  let ?s1 = "show_CCI False s"
  have cap1: "TACCTL1 (?s1\<lparr>TACCR1 := TAR s\<rparr>) AND CAP \<noteq> 0"
    using st(1) by (simp add: show_CCI_bits)
  have "chan1 False s = rx_capture (TAR s) ?s1"
    by (rule chan1_edge [OF st(1) rx_common(2) [OF inv] cci rx_common(1) [OF inv] gie])
  also have "\<dots> = ?s1\<lparr>TACCR1 := TAR s + 156, TACCTL1 := TACCTL1 ?s1 AND NOT CAP\<rparr>"
    unfolding rx_capture_def A1_capture [OF cap1] by simp
  finally have c: "chan1 False s = ?s1\<lparr>TACCR1 := TAR s + 156, TACCTL1 := TACCTL1 ?s1 AND NOT CAP\<rparr>" .
  have "rx_inv b T r0 rb 208 (?s1\<lparr>TACCR1 := TAR s + 156, TACCTL1 := TACCTL1 ?s1 AND NOT CAP\<rparr>)"
    unfolding rx_inv_def using rx_common [OF inv] st l tar
    by (simp add: n clear_CAP_bits show_CCI_bits show_CCI_fields)
  then show ?thesis using l c by (simp add: n)
qed

lemma rx_phase:
  assumes "rx_inv b T r0 rb n s" and "208 \<le> n" and "n < 1092"
  shows "TACCTL1 s AND CAP = 0"
    "TACCR1 s = T + of_nat (364 + 104 * ((n - 260) div 104))"
    "rxBitCnt s = of_nat (8 - (n - 260) div 104)"
    "rxData s = fold shift_in (map (bit b) [0..<(n - 260) div 104]) r0"
    "rxBuffer s = rb"
  using assms by (simp_all add: rx_inv_def)

lemma rx_match_iff:
  assumes inv: "rx_inv b T r0 rb n s" and n: "208 \<le> n" "n < 1092"
    and tar: "TAR s = T + of_nat (Suc n)"
  shows "(TAR s = TACCR1 s) = (Suc n = 364 + 104 * ((n - 260) div 104))"
proof -
  have "(n - 260) div 104 \<le> 7" using n by (rule samp_arith(3))
  then have "364 + 104 * ((n - 260) div 104) < 65536" by simp
  moreover have "Suc n < 65536" using n by simp
  ultimately show ?thesis
    by (simp add: tar rx_phase(2) [OF inv n] of_nat_eq16 del: of_nat_Suc of_nat_add of_nat_mult)
qed

lemma CAP_nz: "CAP \<noteq> 0"
  by (simp add: CAP_def)

lemma clear_LPM0: "((w::u16) AND NOT LPM0_bits) AND LPM0_bits = 0"
  by (simp add: tst)

lemma rx_inv_samplingI:
  assumes "208 \<le> k" and "k < 1092" and "(k - 260) div 104 = m"
    and "TACCTL1 s AND CCIE \<noteq> 0" and "TACCTL1 s AND CM1 \<noteq> 0" and "TACCTL1 s AND CM0 = 0"
    and "(TACCTL1 s AND CCI \<noteq> 0) = line_level b k"
    and "TACCTL1 s AND CAP = 0" and "TACCR1 s = T + of_nat (364 + 104 * m)"
    and "rxBitCnt s = of_nat (8 - m)"
    and "rxData s = fold shift_in (map (bit b) [0..<m]) r0" and "rxBuffer s = rb"
  shows "rx_inv b T r0 rb k s"
  unfolding rx_inv_def using assms by (simp del: of_nat_diff of_nat_add of_nat_mult)

lemma rx_inv_doneI:
  assumes "1092 \<le> k"
    and "TACCTL1 s AND CCIE \<noteq> 0" and "TACCTL1 s AND CM1 \<noteq> 0" and "TACCTL1 s AND CM0 = 0"
    and "(TACCTL1 s AND CCI \<noteq> 0) = line_level b k"
    and "TACCTL1 s AND CAP \<noteq> 0" and "rxBitCnt s = 8" and "rxBuffer s = b"
    and "SR s AND LPM0_bits = 0"
  shows "rx_inv b T r0 rb k s"
  unfolding rx_inv_def using assms by simp

lemma rx_step_quiet:
  assumes inv: "rx_inv b T r0 rb n s" and n: "208 \<le> n" "n < 1092"
    and tar: "TAR s = T + of_nat (Suc n)"
    and ne: "Suc n \<noteq> 364 + 104 * ((n - 260) div 104)"
  shows "rx_inv b T r0 rb (Suc n) (chan1 (line_level b (Suc n)) s)"
proof -
  note st = rx_phase [OF inv n]
  note d = samp_arith(1) [OF n(1) ne]
  have m: "(n - 260) div 104 \<le> 7" using n by (rule samp_arith(3))
  have "Suc n \<noteq> 1092"
  proof
    assume e: "Suc n = 1092"
    then have "n - 260 = 7 * 104 + 103" by simp
    then have "(n - 260) div 104 = 7" by simp
    with e ne show False by simp
  qed
  with n have sn: "Suc n < 1092" "\<not> Suc n < 208" by simp_all
  have "TAR s \<noteq> TACCR1 s" using rx_match_iff [OF inv n tar] ne by simp
  then have "chan1 (line_level b (Suc n)) s = show_CCI (line_level b (Suc n)) s"
    by (rule chan1_no_match [OF st(1)])
  moreover have "rx_inv b T r0 rb (Suc n) (show_CCI (line_level b (Suc n)) s)"
  proof (rule rx_inv_samplingI [OF _ sn(1) d])
    show "208 \<le> Suc n" using n by simp
  qed (use rx_common [OF inv] st in \<open>simp_all add: show_CCI_bits show_CCI_fields
        del: of_nat_diff of_nat_add of_nat_mult\<close>)
  ultimately show ?thesis by simp
qed

lemma rx_step_sample:
  assumes inv: "rx_inv b T r0 rb n s" and n: "208 \<le> n" "n < 1092"
    and tar: "TAR s = T + of_nat (Suc n)" and gie: "SR s AND GIE \<noteq> 0"
    and e: "Suc n = 364 + 104 * ((n - 260) div 104)"
  shows "rx_inv b T r0 rb (Suc n) (chan1 (line_level b (Suc n)) s)"
proof -
  define m where "m = (n - 260) div 104"
  note st = rx_phase [OF inv n, folded m_def]
  note d = samp_arith(2) [OF n(1) e, folded m_def]
  have m: "m \<le> 7" unfolding m_def using n by (rule samp_arith(3))
  have lt: "(Suc n < 1092) = (m < 7)" unfolding m_def using n(1) e by (rule samp_arith(4))
  have "line_level b (Suc n) = line_level b (364 + 104 * m)" by (simp only: e m_def)
  also have "\<dots> = bit b m" using m by (intro ll_sample) simp
  finally have l: "line_level b (Suc n) = bit b m" .
  let ?s1 = "show_CCI (bit b m) s"
  have cap1: "TACCTL1 ?s1 AND CAP = 0" using st(1) by (simp add: show_CCI_bits)
  have match: "TAR s = TACCR1 s" using rx_match_iff [OF inv n tar] e by simp
  have c: "chan1 (bit b m) s = rx_sample (bit b m) ?s1"
    by (rule chan1_match [OF st(1) match rx_common(1) [OF inv] gie])
  have acc: "shift_in (bit b m) (rxData ?s1) = fold shift_in (map (bit b) [0..<Suc m]) r0"
    by (simp add: show_CCI_fields st(4))
  have cnt: "(rxBitCnt ?s1 = 1) = (m = 7)"
  proof -
    have "(of_nat (8 - m) = (of_nat 1 :: u8)) = (8 - m = 1)"
      using m by (intro of_nat_eq8) simp_all
    moreover have "(8 - m = 1) = (m = 7)" using m by arith
    moreover have "rxBitCnt ?s1 = of_nat (8 - m)" by (simp only: show_CCI_fields st(3))
    ultimately show ?thesis by (simp del: of_nat_diff)
  qed
  show ?thesis
  proof (cases "m = 7")
    case True
    then have full: "fold shift_in (map (bit b) [0..<Suc m]) r0 = b"
      using fold_shift_in_8 [of "map (bit b) [0..<8]" r0] by (simp add: byte_of_bits del: upt_Suc)
    have sn: "\<not> Suc n < 1092" "\<not> Suc n < 208" using lt True n by simp_all
    have r: "rx_sample (bit b m) ?s1 =
        ?s1\<lparr>TACCR1 := TACCR1 ?s1 + 104, TACCTL1 := TACCTL1 (latch_SCCI (bit b m) ?s1) OR CAP,
          SR := SR ?s1 AND NOT LPM0_bits, rxBuffer := b, rxBitCnt := 8, rxData := b\<rparr>"
    proof -
      have c1: "(rxBitCnt ?s1 = 1) = True" using cnt True by simp
      show ?thesis by (simp only: rx_sample_step [OF cap1] c1 if_True acc full)
    qed
    have "rx_inv b T r0 rb (Suc n) (rx_sample (bit b m) ?s1)"
      unfolding r
    proof (rule rx_inv_doneI)
      show "1092 \<le> Suc n" using sn by simp
    qed (use rx_common [OF inv] l in \<open>simp_all add: set_CAP_test set_CAP_bits latch_bits
          show_CCI_bits clear_LPM0 CAP_nz\<close>)
    then show ?thesis by (simp only: l c)
  next
    case False
    with m have m6: "m < 7" by simp
    then have sn: "Suc n < 1092" "\<not> Suc n < 208" using lt n by simp_all
    from m6 have "8 - m = Suc (8 - Suc m)" by simp
    then have dec: "(of_nat (8 - m) :: u8) - 1 = of_nat (8 - Suc m)" by (simp del: of_nat_diff)
    have r: "rx_sample (bit b m) ?s1 =
        ?s1\<lparr>TACCR1 := TACCR1 ?s1 + 104, TACCTL1 := TACCTL1 (latch_SCCI (bit b m) ?s1),
          rxBitCnt := of_nat (8 - Suc m),
          rxData := fold shift_in (map (bit b) [0..<Suc m]) r0\<rparr>"
    proof -
      have c1: "(rxBitCnt ?s1 = 1) = False" using cnt False by simp
      have c2: "rxBitCnt ?s1 - 1 = of_nat (8 - Suc m)"
        by (simp only: show_CCI_fields st(3) dec)
      show ?thesis by (simp only: rx_sample_step [OF cap1] c1 if_False acc c2)
    qed
    have "rx_inv b T r0 rb (Suc n) (rx_sample (bit b m) ?s1)"
      unfolding r
    proof (rule rx_inv_samplingI [OF _ sn(1) d])
      show "208 \<le> Suc n" using n by simp
      show "TACCR1 (?s1\<lparr>TACCR1 := TACCR1 ?s1 + 104,
          TACCTL1 := TACCTL1 (latch_SCCI (bit b m) ?s1), rxBitCnt := of_nat (8 - Suc m),
          rxData := fold shift_in (map (bit b) [0..<Suc m]) r0\<rparr>) =
          T + of_nat (364 + 104 * Suc m)"
        by (simp add: show_CCI_fields st(2))
    qed (use rx_common [OF inv] l st(1) st(5) in \<open>simp_all add: latch_bits show_CCI_bits
          show_CCI_fields del: upt_Suc of_nat_diff of_nat_add of_nat_mult\<close>)
    then show ?thesis by (simp only: l c)
  qed
qed

lemma rx_step_done:
  assumes inv: "rx_inv b T r0 rb n s" and n: "1092 \<le> n"
  shows "rx_inv b T r0 rb (Suc n) (chan1 (line_level b (Suc n)) s)"
proof -
  from inv n have st: "TACCTL1 s AND CAP \<noteq> 0" "rxBitCnt s = 8" "rxBuffer s = b"
    "SR s AND LPM0_bits = 0"
    by (simp_all add: rx_inv_def)
  have "chan1 (line_level b (Suc n)) s = show_CCI (line_level b (Suc n)) s"
  proof (rule chan1_no_edge [OF st(1) rx_common(3) [OF inv]])
    assume "TACCTL1 s AND CCI \<noteq> 0"
    then have "line_level b n" using rx_common(4) [OF inv] by simp
    with n show "line_level b (Suc n)" by (rule ll_tail)
  qed
  moreover have "rx_inv b T r0 rb (Suc n) (show_CCI (line_level b (Suc n)) s)"
  proof (rule rx_inv_doneI)
    show "1092 \<le> Suc n" using n by simp
  qed (use rx_common [OF inv] st in \<open>simp_all add: show_CCI_bits show_CCI_fields\<close>)
  ultimately show ?thesis by simp
qed

lemma rx_step:
  assumes inv: "rx_inv b T r0 rb n s" and tar: "TAR s = T + of_nat (Suc n)"
    and gie: "SR s AND GIE \<noteq> 0"
  shows "rx_inv b T r0 rb (Suc n) (chan1 (line_level b (Suc n)) s)"
proof -
  consider "Suc n < 208" | "Suc n = 208" | "208 \<le> n" "n < 1092" | "1092 \<le> n"
    by linarith
  then show ?thesis
  proof cases
    case 1
    then show ?thesis by (rule rx_step_idle [OF inv])
  next
    case 2
    then show ?thesis by (rule rx_step_edge [OF inv _ tar gie])
  next
    case 3
    show ?thesis
    proof (cases "Suc n = 364 + 104 * ((n - 260) div 104)")
      case True
      then show ?thesis by (rule rx_step_sample [OF inv 3 tar gie])
    next
      case False
      then show ?thesis by (rule rx_step_quiet [OF inv 3 tar])
    qed
  next
    case 4
    then show ?thesis by (rule rx_step_done [OF inv])
  qed
qed

lemma irq0_frame:
  "TACCR1 (irq0 s) = TACCR1 s" "TACCTL1 (irq0 s) = TACCTL1 s" "SR (irq0 s) = SR s"
  "rxBuffer (irq0 s) = rxBuffer s" "rxBitCnt (irq0 s) = rxBitCnt s" "rxData (irq0 s) = rxData s"
  by (simp_all add: irq0_def A0_frame)

lemma chan0_count_frame:
  "TACCR1 (chan0 (count s)) = TACCR1 s" "TACCTL1 (chan0 (count s)) = TACCTL1 s"
  "SR (chan0 (count s)) = SR s" "rxBuffer (chan0 (count s)) = rxBuffer s"
  "rxBitCnt (chan0 (count s)) = rxBitCnt s" "rxData (chan0 (count s)) = rxData s"
  by (simp_all add: chan0_def count_def irq0_frame equ0_output_def Let_def)

lemma rx_inv_chan0: "rx_inv b T r0 rb n (chan0 (count s)) = rx_inv b T r0 rb n s"
  by (simp add: rx_inv_def chan0_count_frame)

lemma tx_inv_chan0:
  assumes inv: "tx_inv b T n s"
  shows "tx_inv b T (Suc n) (chan0 (count s))"
proof (cases "n < 1144")
  case False
  then show ?thesis by (rule tx_idle_step [OF inv])
next
  case True
  then show ?thesis
    by (cases "n mod 104 = 103") (simp_all add: tx_quiet_step [OF inv] tx_event_step [OF inv])
qed

lemma loop_step:
  assumes tx: "tx_inv b T n s" and rx: "rx_inv b T r0 rb n s"
  shows "tx_inv b T (Suc n) (loop_tick s) \<and> rx_inv b T r0 rb (Suc n) (loop_tick s)"
proof -
  let ?s1 = "chan0 (count s)"
  note tx1 = tx_inv_chan0 [OF tx]
  have lvl: "TXD ?s1 = line_level b (Suc n)" using tx1 by (rule tx_inv_level)
  from tx have run: "TACTL s AND MC_3 = MC_2" by (simp add: tx_inv_def running_def)
  have lt: "loop_tick s = chan1 (line_level b (Suc n)) ?s1"
    using run by (simp add: loop_tick_def Let_def lvl)
  from tx1 have tar: "TAR ?s1 = T + of_nat (Suc n)" and gie: "SR ?s1 AND GIE \<noteq> 0"
    by (simp_all add: tx_inv_def running_def)
  have "rx_inv b T r0 rb n ?s1" using rx by (simp add: rx_inv_chan0)
  from rx_step [OF this tar gie] tx1 show ?thesis
    by (simp add: lt tx_inv_chan1)
qed

lemma loopback_inv:
  assumes "tx_inv b T 0 s" and "rx_inv b T r0 rb 0 s"
  shows "tx_inv b T n (loopback n s) \<and> rx_inv b T r0 rb n (loopback n s)"
proof (induction n)
  case 0
  with assms show ?case by (simp add: loopback_def)
next
  case (Suc n)
  then have "tx_inv b T (Suc n) (loop_tick (loopback n s))
      \<and> rx_inv b T r0 rb (Suc n) (loop_tick (loopback n s))"
    by (intro loop_step) simp_all
  then show ?case by (simp add: loopback_def)
qed

lemma rx_inv_load: "rx_idle s \<Longrightarrow> rx_inv b T (rxData s) (rxBuffer s) 0 (tx_load b s)"
  by (simp add: rx_idle_def rx_inv_def tx_load_fields ll_idle)

lemma rx_inv_before: "rx_inv b T r0 rb n s \<Longrightarrow> n < 1092 \<Longrightarrow> rxBuffer s = rb"
  by (simp add: rx_inv_def split: if_splits)

lemma rx_inv_done:
  "rx_inv b T r0 rb n s \<Longrightarrow> 1092 \<le> n \<Longrightarrow> rxBuffer s = b \<and> SR s AND LPM0_bits = 0"
  by (simp add: rx_inv_def)

text \<open>
  Before tick 1092, ten and a half bit periods after the call, the mailbox still holds
  what it held at the call.
\<close>

lemma loopback_not_before:
  assumes "tx_idle s" and "rx_idle s" and "n < 10 * UART_TBIT + UART_TBIT_DIV_2"
  shows "rxBuffer (loopback n (tx_load b s)) = rxBuffer s"
proof -
  note inv = loopback_inv [OF tx_inv_load [OF assms(1)] rx_inv_load [OF assms(2)], of b]
  have "n < 1092" using assms(3) by simp
  then show ?thesis by (rule rx_inv_before [OF conjunct2 [OF inv [of n]]])
qed

lemma started_ready:
  "tx_idle (loop_tick (TimerA_UART_init (enable_interrupt reset)))"
  "rx_idle (loop_tick (TimerA_UART_init (enable_interrupt reset)))"
  by (simp_all add: tx_idle_def rx_idle_def running_def loop_tick_def chan0_def count_def
      chan1_def show_CCI_def Let_def start_defs)

text \<open>
  C1. With the TXD pin wired to the RXD pin, a call of \<open>TimerA_UART_tx\<close> with the
  transmitter idle and the receiver awaiting an edge returns at once with the frame loaded;
  the line then carries \<open>line_level b\<close>, whose start bit begins two bit periods (208 ticks)
  after the call, and from tick 1092 on (ten and a half bit periods after the call, eight
  and a half after the start edge) \<open>rxBuffer\<close> holds \<open>b\<close> and the wake-up has been given. In
  particular \<open>rxBuffer = b\<close> one frame time of ten bit periods after the start edge.
\<close>

theorem loopback_round_trip:
  assumes "tx_idle s" and "rx_idle s" and "10 * UART_TBIT + UART_TBIT_DIV_2 \<le> n"
  shows "TimerA_UART_tx rx b s = Some (tx_load b s)
    \<and> TXD (loopback k (tx_load b s)) = line_level b k
    \<and> rxBuffer (loopback n (tx_load b s)) = b
    \<and> SR (loopback n (tx_load b s)) AND LPM0_bits = 0
    \<and> rxBuffer (loopback (2 * UART_TBIT + 10 * UART_TBIT) (tx_load b s)) = b"
proof -
  note inv = loopback_inv [OF tx_inv_load [OF assms(1)] rx_inv_load [OF assms(2)], of b]
  have n: "1092 \<le> n" using assms(3) by simp
  have "TXD (loopback k (tx_load b s)) = line_level b k"
    by (rule tx_inv_level [OF conjunct1 [OF inv [of k]]])
  moreover have "rxBuffer (loopback n (tx_load b s)) = b
      \<and> SR (loopback n (tx_load b s)) AND LPM0_bits = 0"
    by (rule rx_inv_done [OF conjunct2 [OF inv [of n]] n])
  moreover have "rxBuffer (loopback 1248 (tx_load b s)) = b"
    using rx_inv_done [OF conjunct2 [OF inv [of 1248]]] by simp
  ultimately show ?thesis using assms(1) by (simp add: tx_idle_call)
qed

theorem loopback_round_trip_witness:
  "tx_idle (loop_tick (TimerA_UART_init (enable_interrupt reset)))
   \<and> rx_idle (loop_tick (TimerA_UART_init (enable_interrupt reset)))
   \<and> 10 * UART_TBIT + UART_TBIT_DIV_2 \<le> 1248
   \<and> rxBuffer (loopback 1248 (tx_load 0x41 (loop_tick (TimerA_UART_init (enable_interrupt reset)))))
       = 0x41"
proof -
  have h: "10 * UART_TBIT + UART_TBIT_DIV_2 \<le> 1248" by simp
  from loopback_round_trip [OF started_ready h, where b = "0x41"] started_ready h
  show ?thesis by blast
qed

end
